theory Spec2Isabelle
  imports
    Main
    "HOL-Library.Word"
    "HOL-Library.Char_ord"
    "HOL-Library.List_Lexorder"
    "HOL-Library.Product_Lexorder"
begin

unbundle bit_operations_syntax

section \<open>The agent SDK and the example agent of agent-router\<close>

text \<open>
  A shallow embedding of the Python sources: \<^verbatim>\<open>agent_sdk/types.py\<close>,
  \<^verbatim>\<open>agent_sdk/client.py\<close>, \<^verbatim>\<open>agent_sdk/base.py\<close>,
  \<^verbatim>\<open>agent_sdk/local_tools.py\<close>, \<^verbatim>\<open>agent_sdk/code_nav.py\<close>,
  \<^verbatim>\<open>agents/example/agent.py\<close> and \<^verbatim>\<open>agents/example/simulate_pipeline.py\<close>.
  Exceptions are values of the type \<open>exn\<close>; a function that may raise returns
  \<open>exn + 'a\<close> with \<open>Inl\<close> for the raised exception.
\<close>

subsection \<open>Exceptions\<close>

text \<open>
  The exception classes the sources raise, catch or let through; \<open>OtherException\<close>
  stands for any further subclass of \<^verbatim>\<open>Exception\<close>, given by its class name and its
  message. \<open>is_Exception\<close> is Python's \<^verbatim>\<open>isinstance(e, Exception)\<close>: \<^verbatim>\<open>KeyboardInterrupt\<close> derives
  from \<^verbatim>\<open>BaseException\<close> only, so an \<^verbatim>\<open>except Exception\<close> clause lets it through.
\<close>

datatype exn =
    HTTPStatusError nat
  | RequestError string
  | RuntimeError string
  | OtherException string string
  | ValueError string
  | ValidationError string
  | FileNotFoundError
  | IsADirectoryError
  | NotADirectoryError
  | PermissionError
  | FileExistsError
  | TimeoutExpired
  | KeyboardInterrupt

fun is_Exception :: "exn \<Rightarrow> bool" where
  "is_Exception KeyboardInterrupt = False"
| "is_Exception _ = True"

subsection \<open>UUIDs and the random source\<close>

text \<open>
  A UUID is its 128-bit integer. \<^verbatim>\<open>str(u)\<close> writes the 32 hexadecimal digits, most
  significant first, in groups of 8, 4, 4, 4 and 12 joined by hyphens.
\<close>

type_synonym uuid = "128 word"

definition hex_digit :: "nat \<Rightarrow> char" where
  "hex_digit n = ''0123456789abcdef'' ! (n mod 16)"

definition uuid_hex :: "uuid \<Rightarrow> string" where
  "uuid_hex u = map (\<lambda>i. hex_digit (unat (drop_bit (4 * (31 - i)) u AND 15))) [0..<32]"

definition uuid_str :: "uuid \<Rightarrow> string" where
  "uuid_str u =
     (let h = uuid_hex u
      in take 8 h @ ''-'' @ take 4 (drop 8 h) @ ''-'' @ take 4 (drop 12 h) @ ''-'' @
         take 4 (drop 16 h) @ ''-'' @ drop 20 h)"

text \<open>
  \<^verbatim>\<open>uuid4()\<close> is \<^verbatim>\<open>UUID(bytes=os.urandom(16), version=4)\<close>: sixteen bytes from the
  operating system's random source, with the variant and version bits overwritten as the
  constructor of \<^verbatim>\<open>UUID\<close> does. The random source is a state: the sequence
  \<open>entropy\<close> of the values it will deliver and the number \<open>drawn\<close> so far.
\<close>

record rng =
  entropy :: "nat \<Rightarrow> 128 word"
  drawn :: nat

definition urandom16 :: "rng \<Rightarrow> 128 word \<times> rng" where
  "urandom16 g = (entropy g (drawn g), g\<lparr>drawn := drawn g + 1\<rparr>)"

definition uuid_version4 :: "128 word \<Rightarrow> uuid" where
  "uuid_version4 r =
     (((r AND NOT (push_bit 48 0xc000)) OR push_bit 48 0x8000)
        AND NOT (push_bit 64 0xf000)) OR push_bit 76 4"

definition uuid4 :: "rng \<Rightarrow> uuid \<times> rng" where
  "uuid4 g = (case urandom16 g of (r, g') \<Rightarrow> (uuid_version4 r, g'))"

subsection \<open>types.py: the enumerations\<close>

datatype TaskStatus = BACKLOG | READY | IN_PROGRESS | IN_REVIEW | DONE

fun TaskStatus_value :: "TaskStatus \<Rightarrow> string" where
  "TaskStatus_value BACKLOG = ''backlog''"
| "TaskStatus_value READY = ''ready''"
| "TaskStatus_value IN_PROGRESS = ''in_progress''"
| "TaskStatus_value IN_REVIEW = ''in_review''"
| "TaskStatus_value DONE = ''done''"

text \<open>The members of the enumeration, in definition order (\<^verbatim>\<open>list(TaskStatus)\<close>).\<close>

definition TaskStatus_members :: "TaskStatus list" where
  "TaskStatus_members = [BACKLOG, READY, IN_PROGRESS, IN_REVIEW, DONE]"

text \<open>
  Lookup by value, \<^verbatim>\<open>TaskStatus(s)\<close>: the first member whose value is \<open>s\<close>, and
  \<^verbatim>\<open>ValueError\<close> when there is none. Pydantic runs this lookup on the \<^verbatim>\<open>status\<close>
  field when \<^verbatim>\<open>Task(**resp.json())\<close> builds a task from a server reply.
\<close>

definition TaskStatus_of_value :: "string \<Rightarrow> exn + TaskStatus" where
  "TaskStatus_of_value s =
     (case find (\<lambda>m. TaskStatus_value m = s) TaskStatus_members of
        None \<Rightarrow> Inl (ValueError s)
      | Some m \<Rightarrow> Inr m)"

datatype PostType = PROGRESS | BLOCKER | HELP_WANTED | DECISION | ARTIFACT | REVIEW_REQ | COMMENT

fun PostType_value :: "PostType \<Rightarrow> string" where
  "PostType_value PROGRESS = ''progress''"
| "PostType_value BLOCKER = ''blocker''"
| "PostType_value HELP_WANTED = ''help_wanted''"
| "PostType_value DECISION = ''decision''"
| "PostType_value ARTIFACT = ''artifact''"
| "PostType_value REVIEW_REQ = ''review_req''"
| "PostType_value COMMENT = ''comment''"

definition PostType_members :: "PostType list" where
  "PostType_members = [PROGRESS, BLOCKER, HELP_WANTED, DECISION, ARTIFACT, REVIEW_REQ, COMMENT]"

definition PostType_of_value :: "string \<Rightarrow> exn + PostType" where
  "PostType_of_value s =
     (case find (\<lambda>m. PostType_value m = s) PostType_members of
        None \<Rightarrow> Inl (ValueError s)
      | Some m \<Rightarrow> Inr m)"

datatype Priority = CRITICAL | HIGH | MEDIUM | LOW

datatype BranchType = FEATURE | FIX | REFACTOR

subsection \<open>types.py: the models\<close>

text \<open>
  The pydantic models the embedding uses, field by field; the fields of \<^verbatim>\<open>Task\<close>
  carry the prefix \<open>t_\<close> and those of \<^verbatim>\<open>PR\<close> the prefix \<open>pr_\<close>. A
  \<^verbatim>\<open>datetime\<close> is a number (a timestamp), an \<^verbatim>\<open>Optional\<close> field an \<open>option\<close>.
\<close>

record Task =
  t_id :: uuid
  t_project_id :: uuid
  t_title :: string
  t_description :: string
  t_status :: TaskStatus
  t_priority :: Priority
  t_assigned_agent_id :: "uuid option"
  t_parent_task_id :: "uuid option"
  t_branch_type :: BranchType
  t_branch_name :: string
  t_labels :: "string list"
  t_created_by :: string
  t_created_at :: nat
  t_updated_at :: nat
  t_started_at :: "nat option"
  t_completed_at :: "nat option"

record PR =
  pr_id :: int
  pr_url :: string
  pr_number :: int
  pr_head :: string
  pr_base :: string
  pr_title :: string
  pr_body :: string

subsection \<open>client.py: requests, replies and the operations of AgentMeshClient\<close>

text \<open>
  A request as handed to the \<^verbatim>\<open>httpx\<close> client: the method, the path, the query
  parameters, the JSON body (a dictionary of strings, in insertion order) and the headers
  the call adds.
\<close>

record request =
  req_method :: string
  req_url :: string
  req_params :: "(string \<times> string) list"
  req_json :: "(string \<times> string) list"
  req_headers :: "(string \<times> string) list"

text \<open>
  What the \<^verbatim>\<open>httpx\<close> client raises in place of a response: a
  \<^verbatim>\<open>httpx.RequestError\<close> (a timeout, a refused connection, a protocol error) with its
  message, the \<^verbatim>\<open>RuntimeError\<close> of a client that has been closed, or any other
  subclass of \<^verbatim>\<open>Exception\<close>, given by its class name and its message.
  \<^verbatim>\<open>KeyboardInterrupt\<close> and \<^verbatim>\<open>SystemExit\<close> are raised by the interpreter, in the
  main thread, and not by the client.
\<close>

datatype failure = TransportError string | ClientClosed | OtherFailure string string

fun exception_of :: "failure \<Rightarrow> exn" where
  "exception_of (TransportError m) = RequestError m"
| "exception_of ClientClosed = RuntimeError ''Cannot send a request, as the client has been closed.''"
| "exception_of (OtherFailure cls m) = OtherException cls m"

text \<open>
  What the transport gives back: a response with its status code and body text, or a
  failure raised instead of a response. \<^verbatim>\<open>raise_for_status\<close> raises
  \<^verbatim>\<open>HTTPStatusError\<close> unless the code is a 2xx one.
\<close>

datatype reply = Reply nat string | Failed failure

definition raise_for_status :: "nat \<Rightarrow> exn + unit" where
  "raise_for_status code = (if 200 \<le> code \<and> code < 300 then Inr () else Inl (HTTPStatusError code))"

definition heartbeat_request :: "uuid \<Rightarrow> request" where
  "heartbeat_request agent_id =
     \<lparr>req_method = ''POST'', req_url = ''/api/agents/'' @ uuid_str agent_id @ ''/heartbeat'',
      req_params = [], req_json = [], req_headers = []\<rparr>"

definition heartbeat :: "(request \<Rightarrow> reply) \<Rightarrow> uuid \<Rightarrow> exn + unit" where
  "heartbeat http agent_id =
     (case http (heartbeat_request agent_id) of
        Failed x \<Rightarrow> Inl (exception_of x)
      | Reply code body \<Rightarrow> raise_for_status code)"

definition update_task_status_request :: "uuid \<Rightarrow> TaskStatus \<Rightarrow> TaskStatus \<Rightarrow> rng \<Rightarrow> request \<times> rng" where
  "update_task_status_request task_id from_status to_status g =
     (case uuid4 g of (key, g') \<Rightarrow>
        (\<lparr>req_method = ''PATCH'', req_url = ''/api/tasks/'' @ uuid_str task_id,
          req_params = [],
          req_json = [(''status_from'', TaskStatus_value from_status),
                      (''status_to'', TaskStatus_value to_status)],
          req_headers = [(''X-Idempotency-Key'', uuid_str key)]\<rparr>, g'))"

definition post_message_request :: "uuid \<Rightarrow> uuid \<Rightarrow> PostType \<Rightarrow> string \<Rightarrow> rng \<Rightarrow> request \<times> rng" where
  "post_message_request thread_id agent_id post_type content g =
     (case uuid4 g of (key, g') \<Rightarrow>
        (\<lparr>req_method = ''POST'', req_url = ''/api/threads/'' @ uuid_str thread_id @ ''/messages'',
          req_params = [],
          req_json = [(''agent_id'', uuid_str agent_id),
                      (''post_type'', PostType_value post_type),
                      (''content'', content)],
          req_headers = [(''X-Idempotency-Key'', uuid_str key)]\<rparr>, g'))"

definition open_pr_request :: "string \<Rightarrow> string \<Rightarrow> string \<Rightarrow> string \<Rightarrow> rng \<Rightarrow> request \<times> rng" where
  "open_pr_request title body head base g =
     (case uuid4 g of (key, g') \<Rightarrow>
        (\<lparr>req_method = ''POST'', req_url = ''/api/git/pr'', req_params = [],
          req_json = [(''title'', title), (''body'', body), (''head'', head), (''base'', base)],
          req_headers = [(''X-Idempotency-Key'', uuid_str key)]\<rparr>, g'))"

text \<open>
  \<^verbatim>\<open>update_task_status\<close> sends the request, raises on a failed transport or a non-2xx
  status, and otherwise falls off its end: it returns Python's \<^verbatim>\<open>None\<close> and never
  reads the body. The returned value is modelled as a \<open>Task option\<close>, \<open>None\<close>
  for \<^verbatim>\<open>None\<close> and \<open>Some t\<close> for a task object \<open>t\<close>.
\<close>

definition update_task_status ::
  "(request \<Rightarrow> reply) \<Rightarrow> uuid \<Rightarrow> TaskStatus \<Rightarrow> TaskStatus \<Rightarrow> rng \<Rightarrow> (exn + Task option) \<times> rng" where
  "update_task_status http task_id from_status to_status g =
     (case update_task_status_request task_id from_status to_status g of (req, g') \<Rightarrow>
        (case http req of
           Failed x \<Rightarrow> (Inl (exception_of x), g')
         | Reply code body \<Rightarrow>
             (case raise_for_status code of
                Inl e \<Rightarrow> (Inl e, g')
              | Inr _ \<Rightarrow> (Inr None, g'))))"

text \<open>
  \<^verbatim>\<open>post_message\<close> and \<^verbatim>\<open>open_pr\<close> build their result from the body with
  \<^verbatim>\<open>Message(**resp.json())\<close> and \<^verbatim>\<open>PR(**resp.json())\<close>. JSON decoding and pydantic's
  validation are library code: they are the parameter \<open>decode\<close>, which may raise.
\<close>

definition post_message ::
  "(string \<Rightarrow> exn + 'm) \<Rightarrow> (request \<Rightarrow> reply) \<Rightarrow> uuid \<Rightarrow> uuid \<Rightarrow> PostType \<Rightarrow> string \<Rightarrow> rng
     \<Rightarrow> (exn + 'm) \<times> rng" where
  "post_message decode http thread_id agent_id post_type content g =
     (case post_message_request thread_id agent_id post_type content g of (req, g') \<Rightarrow>
        (case http req of
           Failed x \<Rightarrow> (Inl (exception_of x), g')
         | Reply code body \<Rightarrow>
             (case raise_for_status code of
                Inl e \<Rightarrow> (Inl e, g')
              | Inr _ \<Rightarrow> (decode body, g'))))"

definition open_pr ::
  "(string \<Rightarrow> exn + 'p) \<Rightarrow> (request \<Rightarrow> reply) \<Rightarrow> string \<Rightarrow> string \<Rightarrow> string \<Rightarrow> string \<Rightarrow> rng
     \<Rightarrow> (exn + 'p) \<times> rng" where
  "open_pr decode http title body head base g =
     (case open_pr_request title body head base g of (req, g') \<Rightarrow>
        (case http req of
           Failed x \<Rightarrow> (Inl (exception_of x), g')
         | Reply code body' \<Rightarrow>
             (case raise_for_status code of
                Inl e \<Rightarrow> (Inl e, g')
              | Inr _ \<Rightarrow> (decode body', g'))))"

subsection \<open>base.py: BaseAgent\<close>

text \<open>
  A log record: its level, its text up to the exception it formats, and that exception if
  it formats one.
\<close>

datatype log_record = INFO string | WARNING string "exn option" | ERROR string "exn option"

text \<open>
  The fields of a \<^verbatim>\<open>BaseAgent\<close> that \<^verbatim>\<open>start\<close>, \<^verbatim>\<open>stop\<close> and the heartbeat loop
  touch: \<open>running\<close> is \<^verbatim>\<open>_running\<close>, \<open>heartbeat_thread\<close> says whether the thread
  object has been created and started, \<open>client_closed\<close> whether \<^verbatim>\<open>client.close()\<close>
  has run, and \<open>logged\<close> collects what went to the logger.
\<close>

record agent_state =
  agent_id :: uuid
  agent_name :: string
  running :: bool
  heartbeat_thread :: bool
  client_closed :: bool
  logged :: "log_record list"

definition stop :: "agent_state \<Rightarrow> agent_state" where
  "stop s =
     s\<lparr>running := False, client_closed := True,
       logged := logged s @ [INFO (''Agent '' @ agent_name s @ '' stopped'')]\<rparr>"

text \<open>
  \<^verbatim>\<open>start\<close> takes the subclass's \<^verbatim>\<open>run\<close> as a parameter. \<open>run s = None\<close> is a
  \<^verbatim>\<open>run\<close> that never comes back; \<open>Some (None, s')\<close> is a normal return and
  \<open>Some (Some e, s')\<close> the exception \<open>e\<close>, both leaving the agent in \<open>s'\<close>. The
  \<^verbatim>\<open>finally\<close> clause runs \<^verbatim>\<open>stop\<close> in both cases and the exception, if any, goes
  on to the caller.
\<close>

definition start ::
  "(agent_state \<Rightarrow> (exn option \<times> agent_state) option) \<Rightarrow> agent_state
     \<Rightarrow> (exn option \<times> agent_state) option" where
  "start run s =
     (let s1 = s\<lparr>running := True\<rparr>;
          s2 = s1\<lparr>heartbeat_thread := True\<rparr>;
          s3 = s2\<lparr>logged := logged s2 @
                 [INFO (''Agent '' @ agent_name s2 @ '' ('' @ uuid_str (agent_id s2) @ '') started'')]\<rparr>
      in case run s3 of
           None \<Rightarrow> None
         | Some (raised, s4) \<Rightarrow> Some (raised, stop s4))"

text \<open>
  The heartbeat loop runs in its own thread while the main thread may clear
  \<^verbatim>\<open>_running\<close>. One entry of the schedule is one evaluation of the loop condition: the
  value of \<^verbatim>\<open>_running\<close> the loop reads and the transport the heartbeat of that
  iteration meets. The loop has \<open>Returned\<close> when it read \<open>False\<close>, has \<open>Raised\<close>
  when an exception left it, and is \<open>Looping\<close> when the schedule ends before either.
  Each comes with the log records written so far, oldest first.
\<close>

datatype loop_result =
    Returned "log_record list"
  | Raised exn "log_record list"
  | Looping "log_record list"

fun heartbeat_loop :: "uuid \<Rightarrow> (bool \<times> (request \<Rightarrow> reply)) list \<Rightarrow> log_record list \<Rightarrow> loop_result" where
  "heartbeat_loop aid [] lg = Looping lg"
| "heartbeat_loop aid ((still_running, http) # schedule) lg =
     (if \<not> still_running then Returned lg
      else case heartbeat http aid of
             Inl e \<Rightarrow>
               (if is_Exception e
                then heartbeat_loop aid schedule (lg @ [WARNING ''Heartbeat failed: '' (Some e)])
                else Raised e lg)
           | Inr _ \<Rightarrow> heartbeat_loop aid schedule lg)"

text \<open>The warnings a run of heartbeats leaves in the log: one per failed heartbeat.\<close>

definition heartbeat_warnings :: "uuid \<Rightarrow> (request \<Rightarrow> reply) list \<Rightarrow> log_record list" where
  "heartbeat_warnings aid https =
     List.map_filter
       (\<lambda>http. case heartbeat http aid of Inl e \<Rightarrow> Some (WARNING ''Heartbeat failed: '' (Some e)) | Inr _ \<Rightarrow> None)
       https"

subsection \<open>The file system\<close>

text \<open>
  The file system as the tools see it through \<^verbatim>\<open>pathlib\<close>: a path is the list of its
  components, and the file system maps a place, a path from the root without \<^verbatim>\<open>..\<close>,
  to what is found there: a regular file with its text (\<open>File\<close>), a regular file the
  process may write but not read (\<open>WriteOnly\<close>), a device that swallows what is
  written to it and reads as empty, like \<^verbatim>\<open>/dev/null\<close> (\<open>Device\<close>), a directory with
  the names \<^verbatim>\<open>iterdir\<close> yields (in the order it yields them), or a directory the
  process may not list (\<open>Denied\<close>). A place that maps to \<open>None\<close> does not exist. A
  name that a directory lists and that is no directory itself (a file, a dangling link)
  is not a directory for \<^verbatim>\<open>is_dir\<close>. Text is stored decoded; the encoding is taken to
  round-trip.
\<close>

type_synonym path = "string list"

datatype node = File string | WriteOnly string | Device | Dir "string list" | Denied

type_synonym filesystem = "path \<Rightarrow> node option"

definition is_dir :: "filesystem \<Rightarrow> path \<Rightarrow> bool" where
  "is_dir fs p = (case fs p of Some (Dir names) \<Rightarrow> True | Some Denied \<Rightarrow> True | _ \<Rightarrow> False)"

definition iterdir :: "filesystem \<Rightarrow> path \<Rightarrow> exn + path list" where
  "iterdir fs p =
     (case fs p of
        None \<Rightarrow> Inl FileNotFoundError
      | Some (File data) \<Rightarrow> Inl NotADirectoryError
      | Some (WriteOnly data) \<Rightarrow> Inl NotADirectoryError
      | Some Device \<Rightarrow> Inl NotADirectoryError
      | Some Denied \<Rightarrow> Inl PermissionError
      | Some (Dir names) \<Rightarrow> Inr (map (\<lambda>n. p @ [n]) names))"

text \<open>\<^verbatim>\<open>entry.name\<close>: the last component.\<close>

definition name :: "path \<Rightarrow> string" where
  "name p = (if p = [] then [] else last p)"

text \<open>
  \<^verbatim>\<open>Path(working_dir) / path\<close>: the components of a string are what stands between
  the slashes, without the empty ones and the dots; an absolute right-hand side replaces
  the left-hand side.
\<close>

fun split_slash :: "string \<Rightarrow> string list" where
  "split_slash [] = [[]]"
| "split_slash (c # cs) =
     (if c = CHR ''/'' then [] # split_slash cs
      else (c # hd (split_slash cs)) # tl (split_slash cs))"

definition parts :: "string \<Rightarrow> path" where
  "parts s = filter (\<lambda>c. c \<noteq> [] \<and> c \<noteq> ''.'') (split_slash s)"

definition joinpath :: "string \<Rightarrow> string \<Rightarrow> path" where
  "joinpath working_dir p = (if p \<noteq> [] \<and> hd p = CHR ''/'' then parts p else parts working_dir @ parts p)"

text \<open>
  The path resolution of the system: the components are followed from the place \<open>q\<close>,
  each looked up in a directory, \<^verbatim>\<open>..\<close> leading to the parent (the root is its own
  parent). Following a component from a place that does not exist raises
  \<^verbatim>\<open>FileNotFoundError\<close>, from a file \<^verbatim>\<open>NotADirectoryError\<close>. The place the last
  component leads to need not exist.
\<close>

fun locate :: "filesystem \<Rightarrow> path \<Rightarrow> string list \<Rightarrow> exn + path" where
  "locate fs q [] = Inr q"
| "locate fs q (c # cs) =
     (case fs q of
        None \<Rightarrow> Inl FileNotFoundError
      | Some (Dir names) \<Rightarrow> locate fs (if c = ''..'' then butlast q else q @ [c]) cs
      | Some Denied \<Rightarrow> locate fs (if c = ''..'' then butlast q else q @ [c]) cs
      | Some nd \<Rightarrow> Inl NotADirectoryError)"

text \<open>\<^verbatim>\<open>Path.is_dir()\<close> on a path as spelled: false when the path does not resolve.\<close>

definition path_is_dir :: "filesystem \<Rightarrow> string list \<Rightarrow> bool" where
  "path_is_dir fs comps = (case locate fs [] comps of Inl e \<Rightarrow> False | Inr t \<Rightarrow> is_dir fs t)"

text \<open>
  Creating the place \<open>q\<close> as \<open>nd\<close>: the node appears at \<open>q\<close> and its name in the
  listing of the parent directory, if it is not there yet.
\<close>

definition add_entry :: "filesystem \<Rightarrow> path \<Rightarrow> node \<Rightarrow> filesystem" where
  "add_entry fs q nd =
     (if q = [] then fs(q \<mapsto> nd)
      else case fs (butlast q) of
             Some (Dir names) \<Rightarrow>
               (fs(butlast q \<mapsto> Dir (if last q \<in> set names then names else names @ [last q])))(q \<mapsto> nd)
           | _ \<Rightarrow> fs(q \<mapsto> nd))"

text \<open>
  \<^verbatim>\<open>os.mkdir(path)\<close>: the path up to its last component must resolve to a directory,
  and the last component must not exist there yet.
\<close>

definition os_mkdir :: "filesystem \<Rightarrow> string list \<Rightarrow> exn + filesystem" where
  "os_mkdir fs comps =
     (if comps = [] then Inl FileExistsError
      else case locate fs [] (butlast comps) of
             Inl e \<Rightarrow> Inl e
           | Inr d \<Rightarrow>
               (case fs d of
                  None \<Rightarrow> Inl FileNotFoundError
                | Some (Dir names) \<Rightarrow>
                    (if last comps = ''..'' \<or> fs (d @ [last comps]) \<noteq> None
                     then Inl FileExistsError
                     else Inr (add_entry fs (d @ [last comps]) (Dir [])))
                | Some Denied \<Rightarrow>
                    (if last comps = ''..'' \<or> fs (d @ [last comps]) \<noteq> None
                     then Inl FileExistsError
                     else Inl PermissionError)
                | Some nd \<Rightarrow> Inl NotADirectoryError))"

text \<open>
  \<^verbatim>\<open>Path.mkdir(parents=True, exist_ok=True)\<close>, as \<^verbatim>\<open>pathlib\<close> does it:
  \<^verbatim>\<open>os.mkdir\<close> is tried first; on \<^verbatim>\<open>FileNotFoundError\<close> the parent is made in the
  same way and \<^verbatim>\<open>os.mkdir\<close> tried once more; any other error is passed over when the
  path is a directory already, and raised otherwise.
\<close>

function mkdir_parents :: "filesystem \<Rightarrow> string list \<Rightarrow> exn + filesystem" where
  "mkdir_parents fs comps =
     (case os_mkdir fs comps of
        Inr fs' \<Rightarrow> Inr fs'
      | Inl e \<Rightarrow>
          (if e = FileNotFoundError then
             (if comps = [] then Inl e
              else case mkdir_parents fs (butlast comps) of
                     Inl e' \<Rightarrow> Inl e'
                   | Inr fs' \<Rightarrow>
                       (case os_mkdir fs' comps of
                          Inr fs'' \<Rightarrow> Inr fs''
                        | Inl e'' \<Rightarrow>
                            (if e'' \<noteq> FileNotFoundError \<and> path_is_dir fs' comps then Inr fs'
                             else Inl e'')))
           else if path_is_dir fs comps then Inr fs else Inl e))"
  by pat_completeness auto
termination
  by (relation "measure (\<lambda>(fs, comps). length comps)") auto

subsection \<open>Text files\<close>

text \<open>
  \<^verbatim>\<open>open(path, "w")\<close> and \<^verbatim>\<open>open(path)\<close> open the file in text mode with the default
  \<^verbatim>\<open>newline=None\<close>. Writing replaces every line feed by the platform's line separator.
  Reading turns every carriage return followed by a line feed, and every other carriage
  return, into one line feed.
\<close>

datatype platform = Posix | Windows

definition LF :: char where "LF = CHR 0x0A"

definition CR :: char where "CR = CHR 0x0D"

fun linesep :: "platform \<Rightarrow> string" where
  "linesep Posix = [LF]"
| "linesep Windows = [CR, LF]"

definition write_newlines :: "platform \<Rightarrow> string \<Rightarrow> string" where
  "write_newlines os data = concat (map (\<lambda>c. if c = LF then linesep os else [c]) data)"

fun universal_newlines :: "string \<Rightarrow> string" where
  "universal_newlines [] = []"
| "universal_newlines [c] = (if c = CR then [LF] else [c])"
| "universal_newlines (c # d # cs) =
     (if c = CR then
        (if d = LF then LF # universal_newlines cs else LF # universal_newlines (d # cs))
      else c # universal_newlines (d # cs))"

text \<open>\<^verbatim>\<open>f.readlines()\<close>: the lines of the text, each with its line feed; the last one may lack it.\<close>

fun readlines :: "string \<Rightarrow> string list" where
  "readlines [] = []"
| "readlines (c # cs) =
     (if c = LF then [c] # readlines cs
      else (case readlines cs of
              [] \<Rightarrow> [[c]]
            | l # ls \<Rightarrow> (c # l) # ls))"

text \<open>
  \<^verbatim>\<open>xs[i:j]\<close>: a negative bound counts from the end, and both bounds are clipped
  to the list.
\<close>

definition slice_bound :: "nat \<Rightarrow> int \<Rightarrow> nat" where
  "slice_bound n i = (if i < 0 then nat (max (i + int n) 0) else min (nat i) n)"

definition py_slice :: "'a list \<Rightarrow> int \<Rightarrow> int \<Rightarrow> 'a list" where
  "py_slice xs i j =
     (let lo = slice_bound (length xs) i; hi = slice_bound (length xs) j
      in take (hi - lo) (drop lo xs))"

subsection \<open>local_tools.py: LocalTools\<close>

record LocalTools =
  working_dir :: string

text \<open>
  \<^verbatim>\<open>open(full_path, "w")\<close>: the path is resolved; a directory cannot be opened for
  writing; a regular file is emptied and then holds the text; a device swallows it; a new
  file needs a parent directory that lets the process in and is created as a regular file
  the process may read (the usual file mode creation mask).
\<close>

definition open_write :: "filesystem \<Rightarrow> path \<Rightarrow> string \<Rightarrow> exn + filesystem" where
  "open_write fs full data =
     (case locate fs [] full of
        Inl e \<Rightarrow> Inl e
      | Inr t \<Rightarrow>
          (case fs t of
             Some (Dir names) \<Rightarrow> Inl IsADirectoryError
           | Some Denied \<Rightarrow> Inl IsADirectoryError
           | Some (File old) \<Rightarrow> Inr (fs(t \<mapsto> File data))
           | Some (WriteOnly old) \<Rightarrow> Inr (fs(t \<mapsto> WriteOnly data))
           | Some Device \<Rightarrow> Inr fs
           | None \<Rightarrow>
               (case fs (butlast t) of
                  Some (Dir names) \<Rightarrow> Inr (add_entry fs t (File data))
                | Some Denied \<Rightarrow> Inl PermissionError
                | Some nd \<Rightarrow> Inl NotADirectoryError
                | None \<Rightarrow> Inl FileNotFoundError)))"

text \<open>
  \<^verbatim>\<open>open(full_path)\<close> and what is read through it: the text of a regular file,
  nothing from a device, and an error for a file or directory the process may not read,
  for a directory, and for a path that does not resolve to anything.
\<close>

definition open_read :: "filesystem \<Rightarrow> path \<Rightarrow> exn + string" where
  "open_read fs full =
     (case locate fs [] full of
        Inl e \<Rightarrow> Inl e
      | Inr t \<Rightarrow>
          (case fs t of
             None \<Rightarrow> Inl FileNotFoundError
           | Some (File data) \<Rightarrow> Inr data
           | Some (WriteOnly data) \<Rightarrow> Inl PermissionError
           | Some Device \<Rightarrow> Inr []
           | Some (Dir names) \<Rightarrow> Inl IsADirectoryError
           | Some Denied \<Rightarrow> Inl PermissionError))"

definition read_file :: "LocalTools \<Rightarrow> filesystem \<Rightarrow> string \<Rightarrow> int \<Rightarrow> int option \<Rightarrow> exn + string" where
  "read_file tools fs p start_line end_line =
     (let full_path = joinpath (working_dir tools) p
      in case open_read fs full_path of
           Inl e \<Rightarrow> Inl e
         | Inr data \<Rightarrow>
             (let lines = readlines (universal_newlines data);
                  end_line' = (case end_line of None \<Rightarrow> int (length lines) | Some e \<Rightarrow> e)
              in Inr (concat (py_slice lines start_line end_line'))))"

text \<open>
  \<^verbatim>\<open>write_file\<close> returns nothing; its effect is the file system it leaves. The
  platform decides what a line feed is written as.
\<close>

definition write_file :: "platform \<Rightarrow> LocalTools \<Rightarrow> filesystem \<Rightarrow> string \<Rightarrow> string \<Rightarrow> exn + filesystem" where
  "write_file os tools fs p content =
     (let full_path = joinpath (working_dir tools) p
      in case mkdir_parents fs (butlast full_path) of
           Inl e \<Rightarrow> Inl e
         | Inr fs' \<Rightarrow> open_write fs' full_path (write_newlines os content))"

definition startswith_dot :: "string \<Rightarrow> bool" where
  "startswith_dot s = (s \<noteq> [] \<and> hd s = CHR ''.'')"

text \<open>
  \<^verbatim>\<open>sorted(path.iterdir(), key=lambda e: (not e.is_dir(), e.name))\<close>: directories
  first, then by name; the sort is stable.
\<close>

definition sorted_entries :: "filesystem \<Rightarrow> path list \<Rightarrow> path list" where
  "sorted_entries fs entries = sort_key (\<lambda>e. (\<not> is_dir fs e, name e)) entries"

text \<open>
  \<^verbatim>\<open>_walk\<close> appends to the list \<^verbatim>\<open>lines\<close> it is given; the model returns the list
  as the call leaves it. Only \<^verbatim>\<open>PermissionError\<close> is caught around \<^verbatim>\<open>iterdir\<close>; any
  other exception ends the call, and the loop with it.
\<close>

function walk :: "filesystem \<Rightarrow> path \<Rightarrow> string \<Rightarrow> int \<Rightarrow> int \<Rightarrow> string list \<Rightarrow> exn + string list" where
  "walk fs p prefix max_depth current_depth lines =
     (if current_depth \<ge> max_depth then Inr lines
      else case iterdir fs p of
             Inl e \<Rightarrow> (if e = PermissionError then Inr lines else Inl e)
           | Inr entries \<Rightarrow>
               fold (\<lambda>entry acc.
                       case acc of
                         Inl e \<Rightarrow> Inl e
                       | Inr ls \<Rightarrow>
                           (if startswith_dot (name entry) then Inr ls
                            else if is_dir fs entry
                              then walk fs entry (prefix @ ''  '') max_depth (current_depth + 1)
                                     (ls @ [prefix @ name entry @ ''/''])
                              else Inr (ls @ [prefix @ name entry])))
                    (sorted_entries fs entries) (Inr lines))"
  by pat_completeness auto
termination
  by (relation "measure (\<lambda>(fs, p, prefix, max_depth, current_depth, lines). nat (max_depth - current_depth))") auto

text \<open>
  The walkers work on places. \<^verbatim>\<open>list_directory\<close> and \<^verbatim>\<open>get_tree\<close> hand them the
  place their target resolves to; a target that does not resolve raises in
  \<^verbatim>\<open>iterdir\<close>, which \<^verbatim>\<open>_walk\<close> reaches unless the depth is used up at once, and
  is no directory for \<^verbatim>\<open>_tree\<close>, which then lists nothing.
\<close>

definition join :: "string \<Rightarrow> string list \<Rightarrow> string" where
  "join sep xs = (case xs of [] \<Rightarrow> [] | y # ys \<Rightarrow> y @ concat (map (\<lambda>z. sep @ z) ys))"

definition list_directory :: "LocalTools \<Rightarrow> filesystem \<Rightarrow> string \<Rightarrow> int \<Rightarrow> exn + string" where
  "list_directory tools fs p max_depth =
     (case locate fs [] (joinpath (working_dir tools) p) of
        Inl e \<Rightarrow> (if 0 \<ge> max_depth then Inr (join [LF] []) else Inl e)
      | Inr target \<Rightarrow>
          (case walk fs target [] max_depth 0 [] of
             Inl e \<Rightarrow> Inl e
           | Inr lines \<Rightarrow> Inr (join [LF] lines)))"

subsection \<open>code_nav.py: CodeNavigator\<close>

record CodeNavigator =
  nav_working_dir :: string

definition skipped_names :: "string list" where
  "skipped_names = [''node_modules'', ''__pycache__'', ''vendor'', ''.git'']"

function tree :: "filesystem \<Rightarrow> path \<Rightarrow> string \<Rightarrow> int \<Rightarrow> int \<Rightarrow> string list \<Rightarrow> exn + string list" where
  "tree fs p indent max_depth current lines =
     (if current \<ge> max_depth \<or> \<not> is_dir fs p then Inr lines
      else case iterdir fs p of
             Inl e \<Rightarrow> (if e = PermissionError then Inr lines else Inl e)
           | Inr entries \<Rightarrow>
               fold (\<lambda>entry acc.
                       case acc of
                         Inl e \<Rightarrow> Inl e
                       | Inr ls \<Rightarrow>
                           (if startswith_dot (name entry) \<or> name entry \<in> set skipped_names then Inr ls
                            else if is_dir fs entry
                              then tree fs entry (indent @ ''  '') max_depth (current + 1)
                                     (ls @ [indent @ name entry @ ''/''])
                              else Inr (ls @ [indent @ name entry])))
                    (sorted_entries fs entries) (Inr lines))"
  by pat_completeness auto
termination
  by (relation "measure (\<lambda>(fs, p, indent, max_depth, current, lines). nat (max_depth - current))") auto

definition get_tree :: "CodeNavigator \<Rightarrow> filesystem \<Rightarrow> string \<Rightarrow> int \<Rightarrow> exn + string" where
  "get_tree nav fs p depth =
     (case locate fs [] (joinpath (nav_working_dir nav) p) of
        Inl e \<Rightarrow> Inr (join [LF] [])
      | Inr target \<Rightarrow>
          (case tree fs target [] depth 0 [] of
             Inl e \<Rightarrow> Inl e
           | Inr lines \<Rightarrow> Inr (join [LF] lines)))"



text \<open>
  What a line of a listing started at the directory \<open>p\<close> with the indentation
  \<open>prefix\<close> and the depth \<open>current_depth\<close> may be: the name \<open>n\<close> of an entry of a
  directory \<open>q\<close> that lies \<open>k\<close> levels below \<open>p\<close>, where the depth
  \<open>current_depth + k\<close> of that directory is below \<open>max_depth\<close>, written after the
  prefix and two spaces per level, with a slash if the entry is a directory.
\<close>

definition listed_below :: "filesystem \<Rightarrow> path \<Rightarrow> string \<Rightarrow> int \<Rightarrow> int \<Rightarrow> string \<Rightarrow> bool" where
  "listed_below fs p prefix max_depth current_depth l =
     (\<exists>k q n names.
        current_depth + int k < max_depth \<and> length q = length p + k \<and> take (length p) q = p
        \<and> fs q = Some (Dir names) \<and> n \<in> set names
        \<and> l = prefix @ replicate (2 * k) CHR '' '' @ n @ (if is_dir fs (q @ [n]) then ''/'' else []))"

subsection \<open>agents/example/agent.py: ExampleAgent\<close>

text \<open>
  What the agent meets outside itself: the transport, the shell (by working directory and
  command line; \<^verbatim>\<open>subprocess.run\<close> may raise), the platform, and the library code that
  turns a reply body into values: \<open>e_threads\<close> is \<^verbatim>\<open>threads.json()\<close> with
  \<^verbatim>\<open>UUID(...)\<close> on the ids, \<open>e_message\<close> is \<^verbatim>\<open>Message(**resp.json())\<close>, whose
  result no caller here looks at, \<open>e_pr\<close> is \<^verbatim>\<open>PR(**resp.json())\<close>, and \<open>e_str\<close>
  is \<^verbatim>\<open>str(e)\<close> on an exception.
\<close>

record env =
  e_http :: "request \<Rightarrow> reply"
  e_shell :: "string \<Rightarrow> string \<Rightarrow> exn + (string \<times> int)"
  e_os :: platform
  e_threads :: "string \<Rightarrow> exn + uuid list"
  e_message :: "string \<Rightarrow> exn + unit"
  e_pr :: "string \<Rightarrow> exn + PR"
  e_str :: "exn \<Rightarrow> string"

text \<open>
  What changes while the agent works: the random source, the requests handed to the
  transport so far (oldest first), the files, and the log. The fields \<^verbatim>\<open>tools\<close>,
  \<^verbatim>\<open>nav\<close> and \<^verbatim>\<open>repo_path\<close> of the agent carry the prefix \<open>ea_\<close>.
\<close>

record world =
  w_rng :: rng
  w_sent :: "request list"
  w_fs :: filesystem
  w_logged :: "log_record list"

record ExampleAgent = agent_state +
  ea_tools :: LocalTools
  ea_nav :: CodeNavigator
  ea_repo_path :: string

text \<open>
  A step of the agent gives a value or raises, and leaves a world. \<open>then_do\<close> is the
  sequencing of two statements: an exception of the first ends the function.
\<close>

definition then_do ::
  "(exn + 'a) \<times> world \<Rightarrow> ('a \<Rightarrow> world \<Rightarrow> exn option \<times> world) \<Rightarrow> exn option \<times> world" where
  "then_do r k = (case r of (Inl e, w) \<Rightarrow> (Some e, w) | (Inr x, w) \<Rightarrow> k x w)"

text \<open>The calls on \<^verbatim>\<open>self.client\<close>, with the request each hands to the transport recorded.\<close>

definition client_post_message ::
  "env \<Rightarrow> uuid \<Rightarrow> uuid \<Rightarrow> PostType \<Rightarrow> string \<Rightarrow> world \<Rightarrow> (exn + unit) \<times> world" where
  "client_post_message ev thread_id aid post_type content w =
     (case post_message (e_message ev) (e_http ev) thread_id aid post_type content (w_rng w) of
        (r, g') \<Rightarrow>
          (r, w\<lparr>w_rng := g',
                w_sent := w_sent w @
                  [fst (post_message_request thread_id aid post_type content (w_rng w))]\<rparr>))"

definition client_open_pr ::
  "env \<Rightarrow> string \<Rightarrow> string \<Rightarrow> string \<Rightarrow> string \<Rightarrow> world \<Rightarrow> (exn + PR) \<times> world" where
  "client_open_pr ev title' body head base w =
     (case open_pr (e_pr ev) (e_http ev) title' body head base (w_rng w) of
        (r, g') \<Rightarrow>
          (r, w\<lparr>w_rng := g',
                w_sent := w_sent w @ [fst (open_pr_request title' body head base (w_rng w))]\<rparr>))"

definition client_update_task_status ::
  "env \<Rightarrow> uuid \<Rightarrow> TaskStatus \<Rightarrow> TaskStatus \<Rightarrow> world \<Rightarrow> (exn + Task option) \<times> world" where
  "client_update_task_status ev task_id from_status to_status w =
     (case update_task_status (e_http ev) task_id from_status to_status (w_rng w) of
        (r, g') \<Rightarrow>
          (r, w\<lparr>w_rng := g',
                w_sent := w_sent w @
                  [fst (update_task_status_request task_id from_status to_status (w_rng w))]\<rparr>))"

text \<open>\<^verbatim>\<open>BaseAgent.post_update\<close>; the default post type is \<^verbatim>\<open>PostType.PROGRESS\<close>.\<close>

definition post_update ::
  "env \<Rightarrow> ExampleAgent \<Rightarrow> uuid \<Rightarrow> string \<Rightarrow> PostType \<Rightarrow> world \<Rightarrow> (exn + unit) \<times> world" where
  "post_update ev self thread_id content post_type w =
     client_post_message ev thread_id (agent_id self) post_type content w"

text \<open>The shell commands of \<^verbatim>\<open>LocalTools\<close>. They leave the modelled files alone.\<close>

definition run_shell :: "env \<Rightarrow> LocalTools \<Rightarrow> string \<Rightarrow> world \<Rightarrow> (exn + (string \<times> int)) \<times> world" where
  "run_shell ev lt cmd w = (e_shell ev (working_dir lt) cmd, w)"

definition git_branch :: "env \<Rightarrow> LocalTools \<Rightarrow> string \<Rightarrow> world \<Rightarrow> (exn + (string \<times> int)) \<times> world" where
  "git_branch ev lt branch w = run_shell ev lt (''git checkout -b '' @ branch) w"

definition git_commit :: "env \<Rightarrow> LocalTools \<Rightarrow> string \<Rightarrow> world \<Rightarrow> (exn + (string \<times> int)) \<times> world" where
  "git_commit ev lt message w =
     run_shell ev lt (''git add -A && git commit -m '' @ [CHR 0x22] @ message @ [CHR 0x22]) w"

definition git_push :: "env \<Rightarrow> LocalTools \<Rightarrow> string \<Rightarrow> world \<Rightarrow> (exn + (string \<times> int)) \<times> world" where
  "git_push ev lt branch w = run_shell ev lt (''git push origin '' @ branch) w"

text \<open>\<^verbatim>\<open>needle in haystack\<close> on strings.\<close>

fun contains :: "string \<Rightarrow> string \<Rightarrow> bool" where
  "contains needle [] = (needle = [])"
| "contains needle (c # cs) = (take (length needle) (c # cs) = needle \<or> contains needle cs)"

text \<open>
  \<^verbatim>\<open>_work_on_task\<close>, statement by statement, cut into the pieces below at its early
  returns; each piece ends by calling the next. The result is the exception that leaves
  the function, if any, and the world it leaves.

  The last piece: the \<^verbatim>\<open>try\<close> block around \<^verbatim>\<open>update_task_status\<close> and the post that
  follows it, whose handler logs any \<^verbatim>\<open>Exception\<close>, and the final log line.
\<close>

definition completed_work :: "Task \<Rightarrow> world \<Rightarrow> exn option \<times> world" where
  "completed_work task w =
     (None, w\<lparr>w_logged := w_logged w @ [INFO (''Completed work on task: '' @ t_title task)]\<rparr>)"

definition status_update_failed :: "Task \<Rightarrow> exn \<Rightarrow> world \<Rightarrow> exn option \<times> world" where
  "status_update_failed task e w =
     (if is_Exception e
      then completed_work task (w\<lparr>w_logged := w_logged w @ [ERROR ''Failed to update task status: '' (Some e)]\<rparr>)
      else (Some e, w))"

definition move_to_review :: "env \<Rightarrow> ExampleAgent \<Rightarrow> Task \<Rightarrow> uuid \<Rightarrow> world \<Rightarrow> exn option \<times> world" where
  "move_to_review ev self task thread_id w =
     (case client_update_task_status ev (t_id task) IN_PROGRESS IN_REVIEW w of
        (Inl e, w1) \<Rightarrow> status_update_failed task e w1
      | (Inr r, w1) \<Rightarrow>
          (case post_update ev self thread_id ''Task moved to review.'' PROGRESS w1 of
             (Inl e, w2) \<Rightarrow> status_update_failed task e w2
           | (Inr u, w2) \<Rightarrow> completed_work task w2))"

text \<open>
  Opening the pull request: the \<^verbatim>\<open>try\<close> block holds \<^verbatim>\<open>open_pr\<close> and the artifact
  post; its handler posts a blocker and returns.
\<close>

definition pr_failed :: "env \<Rightarrow> ExampleAgent \<Rightarrow> uuid \<Rightarrow> exn \<Rightarrow> world \<Rightarrow> exn option \<times> world" where
  "pr_failed ev self thread_id e w =
     (if is_Exception e
      then then_do (post_update ev self thread_id (''PR creation failed: '' @ e_str ev e) BLOCKER w)
             (\<lambda>u w'. (None, w'))
      else (Some e, w))"

definition open_the_pr :: "env \<Rightarrow> ExampleAgent \<Rightarrow> Task \<Rightarrow> uuid \<Rightarrow> world \<Rightarrow> exn option \<times> world" where
  "open_the_pr ev self task thread_id w =
     then_do (post_update ev self thread_id ''Opening PR...'' PROGRESS w) (\<lambda>u w1.
       case client_open_pr ev (''feat: '' @ t_title task)
              (''Automated PR for task '' @ uuid_str (t_id task) @ [LF, LF] @ t_description task)
              (t_branch_name task) ''main'' w1 of
         (Inl e, w2) \<Rightarrow> pr_failed ev self thread_id e w2
       | (Inr pr, w2) \<Rightarrow>
           (case post_update ev self thread_id (''PR opened: '' @ pr_url pr) ARTIFACT w2 of
              (Inl e, w3) \<Rightarrow> pr_failed ev self thread_id e w3
            | (Inr u', w3) \<Rightarrow> move_to_review ev self task thread_id w3))"

definition push_the_branch :: "env \<Rightarrow> ExampleAgent \<Rightarrow> Task \<Rightarrow> uuid \<Rightarrow> world \<Rightarrow> exn option \<times> world" where
  "push_the_branch ev self task thread_id w =
     then_do (post_update ev self thread_id ''Pushing branch...'' PROGRESS w) (\<lambda>u w1.
       then_do (git_push ev (ea_tools self) (t_branch_name task) w1) (\<lambda>(output, code) w2.
         if code \<noteq> 0
         then then_do (post_update ev self thread_id (''Push failed: '' @ output) BLOCKER w2)
                (\<lambda>u' w3. (None, w3))
         else open_the_pr ev self task thread_id w2))"

definition commit_the_change :: "env \<Rightarrow> ExampleAgent \<Rightarrow> Task \<Rightarrow> uuid \<Rightarrow> world \<Rightarrow> exn option \<times> world" where
  "commit_the_change ev self task thread_id w =
     then_do (post_update ev self thread_id ''Made changes, running commit...'' PROGRESS w) (\<lambda>u w1.
       then_do (git_commit ev (ea_tools self) (''feat: '' @ t_title task) w1) (\<lambda>(output, code) w2.
         if code \<noteq> 0
         then then_do (post_update ev self thread_id (''Commit failed: '' @ output) BLOCKER w2)
                (\<lambda>u' w3. (None, w3))
         else push_the_branch ev self task thread_id w2))"

text \<open>
  The change to \<^verbatim>\<open>README.md\<close>: the \<^verbatim>\<open>try\<close> block reads the file and writes it back
  with a comment appended; on \<^verbatim>\<open>FileNotFoundError\<close>, from either call, the handler
  writes a fresh file. Any other exception leaves the function.
\<close>

definition write_fresh_readme :: "env \<Rightarrow> ExampleAgent \<Rightarrow> Task \<Rightarrow> world \<Rightarrow> (exn + unit) \<times> world" where
  "write_fresh_readme ev self task w =
     (case write_file (e_os ev) (ea_tools self) (w_fs w) ''README.md''
             (''# Project'' @ [LF, LF] @ ''Task: '' @ t_title task @ [LF]) of
        Inl e \<Rightarrow> (Inl e, w)
      | Inr fs' \<Rightarrow> (Inr (), w\<lparr>w_fs := fs'\<rparr>))"

definition edit_readme :: "env \<Rightarrow> ExampleAgent \<Rightarrow> Task \<Rightarrow> world \<Rightarrow> (exn + unit) \<times> world" where
  "edit_readme ev self task w =
     (case read_file (ea_tools self) (w_fs w) ''README.md'' 0 None of
        Inl e \<Rightarrow> (if e = FileNotFoundError then write_fresh_readme ev self task w else (Inl e, w))
      | Inr content \<Rightarrow>
          (case write_file (e_os ev) (ea_tools self) (w_fs w) ''README.md''
                  (content @ [LF, LF] @ ''<!-- Task: '' @ t_title task @ '' (ID: '' @
                     uuid_str (t_id task) @ '') -->'' @ [LF]) of
             Inl e \<Rightarrow> (if e = FileNotFoundError then write_fresh_readme ev self task w else (Inl e, w))
           | Inr fs' \<Rightarrow> (Inr (), w\<lparr>w_fs := fs'\<rparr>)))"

definition make_the_branch :: "env \<Rightarrow> ExampleAgent \<Rightarrow> Task \<Rightarrow> uuid \<Rightarrow> world \<Rightarrow> exn option \<times> world" where
  "make_the_branch ev self task thread_id w =
     then_do (git_branch ev (ea_tools self) (t_branch_name task) w) (\<lambda>(output, code) w1.
       if code \<noteq> 0 \<and> \<not> contains ''already exists'' output
       then then_do (post_update ev self thread_id (''Branch creation issue: '' @ output) BLOCKER w1)
              (\<lambda>u w2. (None, w2))
       else then_do (edit_readme ev self task w1) (\<lambda>u w2.
              commit_the_change ev self task thread_id w2))"

definition explore :: "env \<Rightarrow> ExampleAgent \<Rightarrow> Task \<Rightarrow> uuid \<Rightarrow> world \<Rightarrow> exn option \<times> world" where
  "explore ev self task thread_id w =
     then_do (post_update ev self thread_id (''Starting work on: '' @ t_title task) PROGRESS w) (\<lambda>u w1.
       then_do (get_tree (ea_nav self) (w_fs w1) ''.'' 2, w1) (\<lambda>listing w2.
         then_do (post_update ev self thread_id
                    (''Explored codebase structure:'' @ [LF] @ ''```'' @ [LF] @ listing @ [LF] @ ''```'')
                    PROGRESS w2) (\<lambda>u' w3.
           make_the_branch ev self task thread_id w3)))"

text \<open>
  The first statements: the threads of the task are fetched through the \<^verbatim>\<open>httpx\<close>
  client directly, without \<^verbatim>\<open>raise_for_status\<close>; with no thread the function logs a
  warning and returns.
\<close>

definition threads_request :: "Task \<Rightarrow> request" where
  "threads_request task =
     \<lparr>req_method = ''GET'', req_url = ''/api/threads/'',
      req_params = [(''task_id'', uuid_str (t_id task))], req_json = [], req_headers = []\<rparr>"

definition get_threads :: "env \<Rightarrow> Task \<Rightarrow> world \<Rightarrow> (exn + uuid list) \<times> world" where
  "get_threads ev task w =
     (case e_http ev (threads_request task) of
        Failed x \<Rightarrow> Inl (exception_of x)
      | Reply code body \<Rightarrow> e_threads ev body,
      w\<lparr>w_sent := w_sent w @ [threads_request task]\<rparr>)"

definition work_on_task :: "env \<Rightarrow> ExampleAgent \<Rightarrow> Task \<Rightarrow> world \<Rightarrow> exn option \<times> world" where
  "work_on_task ev self task w =
     then_do (get_threads ev task
                (w\<lparr>w_logged := w_logged w @
                     [INFO (''Working on task: '' @ t_title task @ '' ('' @ uuid_str (t_id task) @ '')'')]\<rparr>))
       (\<lambda>thread_list w1.
          case thread_list of
            [] \<Rightarrow> (None, w1\<lparr>w_logged := w_logged w1 @
                      [WARNING (''No thread found for task '' @ uuid_str (t_id task)) None]\<rparr>)
          | thread_id # others \<Rightarrow> explore ev self task thread_id w1)"

text \<open>
  Reading the trace: the status edges the \<^verbatim>\<open>PATCH\<close> requests ask for, and the post
  types the message posts carry.
\<close>

definition transition_requests :: "request list \<Rightarrow> (string \<times> string) list" where
  "transition_requests reqs =
     List.map_filter
       (\<lambda>r. case (map_of (req_json r) ''status_from'', map_of (req_json r) ''status_to'') of
               (Some a, Some b) \<Rightarrow> Some (a, b)
             | _ \<Rightarrow> None)
       (filter (\<lambda>r. req_method r = ''PATCH'') reqs)"

definition posted_types :: "request list \<Rightarrow> string list" where
  "posted_types reqs = List.map_filter (\<lambda>r. map_of (req_json r) ''post_type'') reqs"

text \<open>
  What the agent may add to the trace. A stretch of requests is \<open>quiet\<close> when it asks
  for no status edge and posts only progress, blocker and artifact messages; it is
  \<open>agent_requests_ok\<close> when, besides such posts, it asks for no edge or for the one edge
  from in_progress to in_review. \<open>grows P w w'\<close>: the trace of \<open>w'\<close> is the trace of
  \<open>w\<close> followed by a stretch that satisfies \<open>P\<close>.
\<close>

definition agent_post_types :: "string list" where
  "agent_post_types = [''progress'', ''blocker'', ''artifact'']"

definition quiet :: "request list \<Rightarrow> bool" where
  "quiet new =
     (transition_requests new = [] \<and> list_all (\<lambda>t. t \<in> set agent_post_types) (posted_types new))"

definition agent_requests_ok :: "request list \<Rightarrow> bool" where
  "agent_requests_ok new =
     ((transition_requests new = [] \<or> transition_requests new = [(''in_progress'', ''in_review'')])
      \<and> list_all (\<lambda>t. t \<in> set agent_post_types) (posted_types new))"

definition grows :: "(request list \<Rightarrow> bool) \<Rightarrow> world \<Rightarrow> world \<Rightarrow> bool" where
  "grows P w w' = (\<exists>new. w_sent w' = w_sent w @ new \<and> P new)"

subsection \<open>agents/example/simulate_pipeline.py\<close>

text \<open>
  The script drives a running server through MCP tool calls and REST requests. A scenario
  is modelled by the calls it issues, in program order, with the literal arguments of the
  script; the ids the server hands out at run time (agents, task, thread) and the answers
  that steer the script (whether \<^verbatim>\<open>claim_task\<close> returned a task, whether the task has a
  thread) are parameters. A run that an exception ends issues a prefix of the list. The
  dashes in the message of the ownership scenario are written as hyphens.
\<close>

datatype sim_call =
    CallTool string "(string \<times> string) list"
  | GetPrompt string "(string \<times> string) list"
  | HttpPost string "(string \<times> string) list"
  | HttpPatch string "(string \<times> string) list"
  | HttpGet string

record sim_config =
  sim_base :: string
  sim_project_id :: string

definition make_agent :: "sim_config \<Rightarrow> string \<Rightarrow> sim_call list" where
  "make_agent cfg role =
     [CallTool ''register_agent''
        [(''project_id'', sim_project_id cfg), (''role'', role), (''name'', ''stub-'' @ role),
         (''model'', ''stub'')],
      GetPrompt role [(''project_id'', sim_project_id cfg)]]"

definition create_task :: "sim_config \<Rightarrow> string \<Rightarrow> string \<Rightarrow> sim_call list" where
  "create_task cfg title' task_id =
     [HttpPost (sim_base cfg @ ''/api/tasks'')
        [(''project_id'', sim_project_id cfg), (''title'', title'),
         (''description'', ''Stub task for simulation: '' @ title'), (''priority'', ''medium''),
         (''branch_type'', ''feature''), (''created_by'', ''simulate_pipeline.py'')],
      HttpPatch (sim_base cfg @ ''/api/tasks/'' @ task_id)
        [(''status_from'', ''backlog''), (''status_to'', ''ready'')]]"

definition get_task_status :: "sim_config \<Rightarrow> string \<Rightarrow> sim_call list" where
  "get_task_status cfg task_id = [HttpGet (sim_base cfg @ ''/api/tasks/'' @ task_id)]"

definition tool_update_task_status :: "string \<Rightarrow> string \<Rightarrow> string \<Rightarrow> sim_call" where
  "tool_update_task_status task_id from_status to_status =
     CallTool ''update_task_status'' [(''task_id'', task_id), (''from'', from_status), (''to'', to_status)]"

definition tool_post_message :: "string \<Rightarrow> string \<Rightarrow> string \<Rightarrow> string \<Rightarrow> sim_call" where
  "tool_post_message task_id content post_type aid =
     CallTool ''post_message''
       [(''task_id'', task_id), (''content'', content), (''post_type'', post_type), (''agent_id'', aid)]"

definition scenario_happy_path ::
  "sim_config \<Rightarrow> string \<Rightarrow> string \<Rightarrow> string \<Rightarrow> string \<Rightarrow> bool \<Rightarrow> string option \<Rightarrow> sim_call list" where
  "scenario_happy_path cfg coder_id qa_id rev_id task_id claimed thread =
     make_agent cfg ''coder'' @ make_agent cfg ''qa'' @ make_agent cfg ''reviewer''
     @ create_task cfg ''Implement login endpoint'' task_id
     @ [CallTool ''claim_task'' [(''agent_id'', coder_id)]]
     @ (if claimed then []
        else [HttpPatch (sim_base cfg @ ''/api/tasks/'' @ task_id)
                [(''status_from'', ''ready''), (''status_to'', ''in_progress'')]])
     @ [CallTool ''set_pr_url''
          [(''task_id'', task_id), (''pr_url'', ''https://github.com/stub/repo/pull/1'')],
        tool_post_message task_id ''Implementation complete. Branch pushed. PR #1 opened.''
          ''artifact'' coder_id,
        tool_update_task_status task_id ''in_progress'' ''in_qa'',
        CallTool ''claim_task'' [(''agent_id'', qa_id)],
        CallTool ''get_task_context'' [(''task_id'', task_id)],
        tool_post_message task_id ''All 23 tests passing. Coverage: 87%.'' ''artifact'' qa_id,
        tool_update_task_status task_id ''in_qa'' ''in_review'',
        CallTool ''claim_task'' [(''agent_id'', rev_id)],
        tool_post_message task_id ''LGTM. Code quality is solid. PR #1 merged to main.''
          ''artifact'' rev_id,
        tool_update_task_status task_id ''in_review'' ''merged'']
     @ get_task_status cfg task_id
     @ [HttpGet (sim_base cfg @ ''/api/threads?task_id='' @ task_id)]
     @ (case thread of
          None \<Rightarrow> []
        | Some thread_id \<Rightarrow> [HttpGet (sim_base cfg @ ''/api/threads/'' @ thread_id @ ''/messages'')])"

definition scenario_ownership_lock ::
  "sim_config \<Rightarrow> string \<Rightarrow> string \<Rightarrow> string \<Rightarrow> sim_call list" where
  "scenario_ownership_lock cfg coder_id qa_id task_id =
     make_agent cfg ''coder'' @ make_agent cfg ''qa''
     @ create_task cfg ''Fix null pointer in auth service'' task_id
     @ [CallTool ''claim_task'' [(''agent_id'', coder_id)],
        HttpPatch (sim_base cfg @ ''/api/tasks/'' @ task_id)
          [(''status_from'', ''ready''), (''status_to'', ''in_progress'')],
        tool_update_task_status task_id ''in_progress'' ''in_qa'',
        CallTool ''claim_task'' [(''agent_id'', qa_id)],
        tool_post_message task_id
          (''test_auth_login: FAIL - null pointer at auth.go:127'' @ [LF] @
           ''test_auth_refresh: FAIL - expired token not rejected'')
          ''review_feedback'' qa_id,
        tool_update_task_status task_id ''in_qa'' ''in_progress'']
     @ get_task_status cfg task_id
     @ [CallTool ''list_messages'' [(''task_id'', task_id)]]"

definition scenario_main_updated ::
  "sim_config \<Rightarrow> string \<Rightarrow> string \<Rightarrow> sim_call list" where
  "scenario_main_updated cfg t1 t2 =
     make_agent cfg ''coder'' @ make_agent cfg ''coder'' @ make_agent cfg ''qa''
     @ make_agent cfg ''reviewer''
     @ create_task cfg ''Feature A (will be merged)'' t1
     @ create_task cfg ''Feature B (in-progress when A merges)'' t2
     @ [HttpPatch (sim_base cfg @ ''/api/tasks/'' @ t2)
          [(''status_from'', ''ready''), (''status_to'', ''in_progress'')],
        HttpPatch (sim_base cfg @ ''/api/tasks/'' @ t1)
          [(''status_from'', ''ready''), (''status_to'', ''in_progress'')],
        tool_update_task_status t1 ''in_progress'' ''in_qa'',
        tool_update_task_status t1 ''in_qa'' ''in_review'',
        tool_update_task_status t1 ''in_review'' ''merged'']
     @ get_task_status cfg t1 @ get_task_status cfg t2"

text \<open>Reading a scenario: the status edges it asks for, and the post types of its messages.\<close>

fun sim_transition :: "sim_call \<Rightarrow> (string \<times> string) option" where
  "sim_transition (HttpPatch url body) =
     (case (map_of body ''status_from'', map_of body ''status_to'') of
        (Some a, Some b) \<Rightarrow> Some (a, b)
      | _ \<Rightarrow> None)"
| "sim_transition (CallTool tool args) =
     (if tool = ''update_task_status''
      then (case (map_of args ''from'', map_of args ''to'') of
              (Some a, Some b) \<Rightarrow> Some (a, b)
            | _ \<Rightarrow> None)
      else None)"
| "sim_transition _ = None"

fun sim_post_type :: "sim_call \<Rightarrow> string option" where
  "sim_post_type (CallTool tool args) =
     (if tool = ''post_message'' then map_of args ''post_type'' else None)"
| "sim_post_type _ = None"

subsection \<open>The orchestrator's lifecycle, modelled from the specification\<close>

text \<open>
  Modelled from the spec: the lifecycle states of the orchestrator (section 4.1). The
  server that keeps the tasks is not among the sources; the SDK and the scripts only
  call it.
\<close>

datatype lifecycle = Backlog | Ready | InProgress | InQa | InReview | Merged

text \<open>Modelled from the spec: the names of the lifecycle states on the wire (section 4.1).\<close>

fun lifecycle_name :: "lifecycle \<Rightarrow> string" where
  "lifecycle_name Backlog = ''backlog''"
| "lifecycle_name Ready = ''ready''"
| "lifecycle_name InProgress = ''in_progress''"
| "lifecycle_name InQa = ''in_qa''"
| "lifecycle_name InReview = ''in_review''"
| "lifecycle_name Merged = ''merged''"

text \<open>
  Modelled from the spec: the permitted directed edges of the lifecycle (section 4.1),
  the table the server checks a requested transition against.
\<close>

definition permitted_edges :: "(lifecycle \<times> lifecycle) list" where
  "permitted_edges =
     [(Backlog, Ready), (Ready, InProgress), (InProgress, InQa), (InQa, InReview),
      (InQa, InProgress), (InReview, Merged), (InReview, InProgress)]"

text \<open>Modelled from the spec: the permitted edges by the names of their states.\<close>

definition permitted_edge_names :: "(string \<times> string) list" where
  "permitted_edge_names = map (\<lambda>(a, b). (lifecycle_name a, lifecycle_name b)) permitted_edges"


text \<open>
  Modelled from the spec: the roles of agents (section 3: coder, qa, reviewer). The server
  that keeps agents and tasks is not among the sources.
\<close>

datatype role = Coder | Qa | Reviewer

text \<open>
  Modelled from the spec: an agent of the registry (sections 3 and 4.5), with its role and
  whether it is live, that is, was heard from within the liveness window.
\<close>

record agent_entry =
  entry_role :: role
  entry_live :: bool

text \<open>
  Modelled from the spec: the part of a task the state machine and the ownership lock
  work on (section 3): its status, its assigned agent and the timestamps of start and
  completion. Ownership is role-scoped (section 4.2): \<open>assigned_agent\<close> is the lock of
  the coder, the field that "remains the original coder" across a bounce-back, and the QA
  and reviewer roles, which "claim during their respective states", hold locks of their
  own, \<open>qa_agent\<close> and \<open>review_agent\<close>. Agents and tasks are identified by numbers.
\<close>

record task_state =
  lifecycle_status :: lifecycle
  assigned_agent :: "nat option"
  qa_agent :: "nat option"
  review_agent :: "nat option"
  started :: "nat option"
  completed :: "nat option"





text \<open>
  Modelled from the spec: the state of the orchestrator, the tasks by their ids, the
  agents of the registry by their ids, the results of the transitions that succeeded by
  their idempotency tokens (section 4.1, idempotency), and the clock the timestamps are
  read from.
\<close>

record orchestrator =
  tasks :: "nat \<rightharpoonup> task_state"
  agents :: "nat \<rightharpoonup> agent_entry"
  results :: "string \<rightharpoonup> task_state"
  clock :: nat






subsection \<open>Concrete inputs\<close>

text \<open>A random source that delivers 0, 1, 2, ... and a task snapshot in review.\<close>

definition counting_rng :: rng where
  "counting_rng = \<lparr>entropy = (\<lambda>n. word_of_nat n), drawn = 0\<rparr>"

definition reviewed_task :: Task where
  "reviewed_task =
     \<lparr>t_id = 7, t_project_id = 1, t_title = ''Implement login endpoint'', t_description = [],
      t_status = IN_REVIEW, t_priority = MEDIUM, t_assigned_agent_id = Some 3, t_parent_task_id = None,
      t_branch_type = FEATURE, t_branch_name = ''feature/login'', t_labels = [],
      t_created_by = ''simulate_pipeline.py'', t_created_at = 100, t_updated_at = 200,
      t_started_at = Some 150, t_completed_at = None\<rparr>"

definition accepting_server :: "request \<Rightarrow> reply" where
  "accepting_server req = Reply 200 ''{\"id\": 7, \"status\": \"in_review\"}''"

text \<open>
  A transport that times out and tells, in the message of its error, the idempotency key
  of the request it was handed.
\<close>

definition key_probe :: "request \<Rightarrow> reply" where
  "key_probe req =
     Failed (TransportError
       (case map_of (req_headers req) ''X-Idempotency-Key'' of
          None \<Rightarrow> ''no key''
        | Some k \<Rightarrow> k))"

definition example_agent_state :: agent_state where
  "example_agent_state =
     \<lparr>agent_id = 3, agent_name = ''Example Coder'', running = False, heartbeat_thread = False,
      client_closed = False, logged = []\<rparr>"

text \<open>A small repository on disk, and the tools working in it.\<close>

definition repo_tools :: LocalTools where
  "repo_tools = \<lparr>working_dir = ''/repo''\<rparr>"

definition repo_fs :: filesystem where
  "repo_fs =
     [[] \<mapsto> Dir [''repo''],
      [''repo''] \<mapsto> Dir [''src'', ''README.md'', ''.git''],
      [''repo'', ''src''] \<mapsto> Dir [''main.py'', ''lib''],
      [''repo'', ''src'', ''main.py''] \<mapsto> File ''print(1)'',
      [''repo'', ''src'', ''lib''] \<mapsto> Dir [''util.py''],
      [''repo'', ''src'', ''lib'', ''util.py''] \<mapsto> File [],
      [''repo'', ''.git''] \<mapsto> Dir [''HEAD''],
      [''repo'', ''README.md''] \<mapsto> File ''# Project'']"





text \<open>
  A server that accepts everything, a shell whose commands succeed, and the agent at work
  in the small repository on a task in progress that is assigned to it.
\<close>

definition stub_pr :: PR where
  "stub_pr =
     \<lparr>pr_id = 1, pr_url = ''https://github.com/stub/repo/pull/1'', pr_number = 1,
      pr_head = ''feature/login'', pr_base = ''main'',
      pr_title = ''feat: Implement login endpoint'', pr_body = []\<rparr>"

definition willing_env :: env where
  "willing_env =
     \<lparr>e_http = accepting_server,
      e_shell = (\<lambda>cwd cmd. Inr ([], 0)),
      e_os = Posix,
      e_threads = (\<lambda>body. Inr [9]),
      e_message = (\<lambda>body. Inr ()),
      e_pr = (\<lambda>body. Inr stub_pr),
      e_str = (\<lambda>e. ''error'')\<rparr>"

definition fresh_world :: world where
  "fresh_world = \<lparr>w_rng = counting_rng, w_sent = [], w_fs = repo_fs, w_logged = []\<rparr>"

definition example_agent :: ExampleAgent where
  "example_agent =
     \<lparr>agent_id = 3, agent_name = ''Example Coder'', running = True, heartbeat_thread = True,
      client_closed = False, logged = [], ea_tools = repo_tools,
      ea_nav = \<lparr>nav_working_dir = ''/repo''\<rparr>, ea_repo_path = ''/repo''\<rparr>"

definition assigned_task :: Task where
  "assigned_task = reviewed_task\<lparr>t_status := IN_PROGRESS\<rparr>"

section \<open>Properties\<close>

subsection \<open>The enumerations\<close>

lemma TaskStatus_members_complete: "set TaskStatus_members = UNIV"
proof -
  have "m \<in> set TaskStatus_members" for m
    by (cases m) (simp_all add: TaskStatus_members_def)
  then show ?thesis by auto
qed

lemma PostType_members_complete: "set PostType_members = UNIV"
proof -
  have "m \<in> set PostType_members" for m
    by (cases m) (simp_all add: PostType_members_def)
  then show ?thesis by auto
qed

text \<open>
  C1, as the code has it. The claim names six task statuses: backlog, ready, in_progress, in_qa,
  in_review, merged. The enumeration \<open>TaskStatus\<close> of the SDK has five members, with
  the values backlog, ready, in_progress, in_review and done; they are all the values a
  \<open>TaskStatus\<close> can be, and the lookups \<^verbatim>\<open>TaskStatus("in_qa")\<close> and
  \<^verbatim>\<open>TaskStatus("merged")\<close> raise \<^verbatim>\<open>ValueError\<close>, while \<^verbatim>\<open>TaskStatus("done")\<close>
  succeeds.
\<close>

theorem TaskStatus_lacks_in_qa_and_merged:
  "map TaskStatus_value TaskStatus_members =
     [''backlog'', ''ready'', ''in_progress'', ''in_review'', ''done'']
   \<and> set TaskStatus_members = UNIV
   \<and> TaskStatus_of_value ''in_qa'' = Inl (ValueError ''in_qa'')
   \<and> TaskStatus_of_value ''merged'' = Inl (ValueError ''merged'')
   \<and> TaskStatus_of_value ''done'' = Inr DONE"
  using TaskStatus_members_complete
  by (simp add: TaskStatus_members_def TaskStatus_of_value_def)

subsection \<open>The client\<close>

lemma uuid4_drawn: "uuid4 g = (uuid_version4 (entropy g (drawn g)), g\<lparr>drawn := drawn g + 1\<rparr>)"
  by (simp add: uuid4_def urandom16_def)

text \<open>
  C5, as the code has it. Whatever the transport answers, \<^verbatim>\<open>update_task_status\<close>
  returns \<^verbatim>\<open>None\<close> when the reply has a 2xx status, raises \<^verbatim>\<open>HTTPStatusError\<close> on
  any other status and the exception of the transport when the transport fails: no task
  snapshot is ever returned, and the body of the reply is not read.
\<close>

theorem update_task_status_returns_None:
  "fst (update_task_status http task_id from_status to_status g) =
     (case http (fst (update_task_status_request task_id from_status to_status g)) of
        Failed x \<Rightarrow> Inl (exception_of x)
      | Reply code body \<Rightarrow>
          (if 200 \<le> code \<and> code < 300 then Inr None else Inl (HTTPStatusError code)))"
  by (simp add: update_task_status_def update_task_status_request_def uuid4_drawn
      raise_for_status_def split: reply.split)

text \<open>
  C5, the claim as stated fails: the server accepts the transition in_progress to
  in_review of task 7 (status 200) and answers with the new snapshot in the body; the
  call returns \<^verbatim>\<open>None\<close>, not the snapshot \<open>reviewed_task\<close>.
\<close>

theorem update_task_status_snapshot_counterexample:
  "fst (update_task_status accepting_server 7 IN_PROGRESS IN_REVIEW counting_rng) = Inr None
   \<and> fst (update_task_status accepting_server 7 IN_PROGRESS IN_REVIEW counting_rng)
       \<noteq> Inr (Some reviewed_task)"
  by (simp add: update_task_status_def update_task_status_request_def uuid4_drawn
      raise_for_status_def accepting_server_def)

text \<open>
  C3, as the code has it. Each of \<^verbatim>\<open>update_task_status\<close>, \<^verbatim>\<open>post_message\<close> and
  \<^verbatim>\<open>open_pr\<close> hands the transport one request, and that request has exactly one
  header, \<^verbatim>\<open>X-Idempotency-Key\<close>, whose value is the text of a version-4 UUID made from
  the next value of the random source; the call consumes that value, and what it returns
  or raises is decided by what the transport answers to that request. The token is
  generated inside the call: it does not depend on the arguments, and no argument lets the
  caller choose it. The first three conjuncts are the operations with any transport, the
  others the requests they build.
\<close>

theorem idempotency_key_is_next_uuid4:
  "update_task_status http task_id from_status to_status g =
     (case http
            \<lparr>req_method = ''PATCH'', req_url = ''/api/tasks/'' @ uuid_str task_id,
             req_params = [],
             req_json = [(''status_from'', TaskStatus_value from_status),
                         (''status_to'', TaskStatus_value to_status)],
             req_headers =
               [(''X-Idempotency-Key'', uuid_str (uuid_version4 (entropy g (drawn g))))]\<rparr> of
        Failed x \<Rightarrow> Inl (exception_of x)
      | Reply code reply_body \<Rightarrow>
          (if 200 \<le> code \<and> code < 300 then Inr None else Inl (HTTPStatusError code)),
      g\<lparr>drawn := drawn g + 1\<rparr>)
   \<and> post_message decode_message http thread_id aid post_type content g =
     (case http
            \<lparr>req_method = ''POST'',
             req_url = ''/api/threads/'' @ uuid_str thread_id @ ''/messages'',
             req_params = [],
             req_json = [(''agent_id'', uuid_str aid), (''post_type'', PostType_value post_type),
                         (''content'', content)],
             req_headers =
               [(''X-Idempotency-Key'', uuid_str (uuid_version4 (entropy g (drawn g))))]\<rparr> of
        Failed x \<Rightarrow> Inl (exception_of x)
      | Reply code reply_body \<Rightarrow>
          (if 200 \<le> code \<and> code < 300 then decode_message reply_body
           else Inl (HTTPStatusError code)),
      g\<lparr>drawn := drawn g + 1\<rparr>)
   \<and> open_pr decode_pr http title' body head base g =
     (case http
            \<lparr>req_method = ''POST'', req_url = ''/api/git/pr'', req_params = [],
             req_json = [(''title'', title'), (''body'', body), (''head'', head), (''base'', base)],
             req_headers =
               [(''X-Idempotency-Key'', uuid_str (uuid_version4 (entropy g (drawn g))))]\<rparr> of
        Failed x \<Rightarrow> Inl (exception_of x)
      | Reply code reply_body \<Rightarrow>
          (if 200 \<le> code \<and> code < 300 then decode_pr reply_body
           else Inl (HTTPStatusError code)),
      g\<lparr>drawn := drawn g + 1\<rparr>)
   \<and> req_headers (fst (update_task_status_request task_id from_status to_status g)) =
     [(''X-Idempotency-Key'', uuid_str (uuid_version4 (entropy g (drawn g))))]
   \<and> req_headers (fst (post_message_request thread_id aid post_type content g)) =
     [(''X-Idempotency-Key'', uuid_str (uuid_version4 (entropy g (drawn g))))]
   \<and> req_headers (fst (open_pr_request title' body head base g)) =
     [(''X-Idempotency-Key'', uuid_str (uuid_version4 (entropy g (drawn g))))]
   \<and> snd (update_task_status_request task_id from_status to_status g) = g\<lparr>drawn := drawn g + 1\<rparr>
   \<and> snd (post_message_request thread_id aid post_type content g) = g\<lparr>drawn := drawn g + 1\<rparr>
   \<and> snd (open_pr_request title' body head base g) = g\<lparr>drawn := drawn g + 1\<rparr>"
proof -
  have "update_task_status http task_id from_status to_status g =
     (case http
            \<lparr>req_method = ''PATCH'', req_url = ''/api/tasks/'' @ uuid_str task_id,
             req_params = [],
             req_json = [(''status_from'', TaskStatus_value from_status),
                         (''status_to'', TaskStatus_value to_status)],
             req_headers =
               [(''X-Idempotency-Key'', uuid_str (uuid_version4 (entropy g (drawn g))))]\<rparr> of
        Failed x \<Rightarrow> Inl (exception_of x)
      | Reply code reply_body \<Rightarrow>
          (if 200 \<le> code \<and> code < 300 then Inr None else Inl (HTTPStatusError code)),
      g\<lparr>drawn := drawn g + 1\<rparr>)"
    by (simp add: update_task_status_def update_task_status_request_def uuid4_drawn
        raise_for_status_def split: reply.split)
  moreover have "post_message decode_message http thread_id aid post_type content g =
     (case http
            \<lparr>req_method = ''POST'',
             req_url = ''/api/threads/'' @ uuid_str thread_id @ ''/messages'',
             req_params = [],
             req_json = [(''agent_id'', uuid_str aid), (''post_type'', PostType_value post_type),
                         (''content'', content)],
             req_headers =
               [(''X-Idempotency-Key'', uuid_str (uuid_version4 (entropy g (drawn g))))]\<rparr> of
        Failed x \<Rightarrow> Inl (exception_of x)
      | Reply code reply_body \<Rightarrow>
          (if 200 \<le> code \<and> code < 300 then decode_message reply_body
           else Inl (HTTPStatusError code)),
      g\<lparr>drawn := drawn g + 1\<rparr>)"
    by (auto simp: post_message_def post_message_request_def uuid4_drawn
        raise_for_status_def split: reply.split)
  moreover have "open_pr decode_pr http title' body head base g =
     (case http
            \<lparr>req_method = ''POST'', req_url = ''/api/git/pr'', req_params = [],
             req_json = [(''title'', title'), (''body'', body), (''head'', head), (''base'', base)],
             req_headers =
               [(''X-Idempotency-Key'', uuid_str (uuid_version4 (entropy g (drawn g))))]\<rparr> of
        Failed x \<Rightarrow> Inl (exception_of x)
      | Reply code reply_body \<Rightarrow>
          (if 200 \<le> code \<and> code < 300 then decode_pr reply_body
           else Inl (HTTPStatusError code)),
      g\<lparr>drawn := drawn g + 1\<rparr>)"
    by (auto simp: open_pr_def open_pr_request_def uuid4_drawn
        raise_for_status_def split: reply.split)
  ultimately show ?thesis
    by (simp add: update_task_status_request_def post_message_request_def open_pr_request_def
        uuid4_drawn)
qed

text \<open>
  C3, the claim as stated fails: the transport times out, and its error message tells the
  idempotency key of the request it was handed. \<^verbatim>\<open>update_task_status\<close> is called for
  task 7 and the edge in_progress to in_review, and called again with the same arguments,
  as a retry after the timeout would. The first call hands the transport the key
  00000000-0000-4000-8000-000000000000, the second the key
  00000000-0000-4000-8000-000000000001; so do the requests the two calls build.
\<close>

theorem retry_sends_another_key_counterexample:
  "fst (update_task_status key_probe 7 IN_PROGRESS IN_REVIEW counting_rng) =
     Inl (RequestError ''00000000-0000-4000-8000-000000000000'')
   \<and> fst (update_task_status key_probe 7 IN_PROGRESS IN_REVIEW
        (snd (update_task_status key_probe 7 IN_PROGRESS IN_REVIEW counting_rng))) =
     Inl (RequestError ''00000000-0000-4000-8000-000000000001'')
   \<and> req_headers (fst (update_task_status_request 7 IN_PROGRESS IN_REVIEW counting_rng)) =
     [(''X-Idempotency-Key'', ''00000000-0000-4000-8000-000000000000'')]
   \<and> req_headers (fst (update_task_status_request 7 IN_PROGRESS IN_REVIEW
        (snd (update_task_status_request 7 IN_PROGRESS IN_REVIEW counting_rng)))) =
     [(''X-Idempotency-Key'', ''00000000-0000-4000-8000-000000000001'')]
   \<and> req_headers (fst (update_task_status_request 7 IN_PROGRESS IN_REVIEW counting_rng)) \<noteq>
     req_headers (fst (update_task_status_request 7 IN_PROGRESS IN_REVIEW
        (snd (update_task_status_request 7 IN_PROGRESS IN_REVIEW counting_rng))))"
  by code_simp

subsection \<open>BaseAgent\<close>

lemma is_Exception_exception_of: "is_Exception (exception_of x)"
  by (cases x) simp_all

lemma heartbeat_raises_Exception: "heartbeat http aid = Inl e \<Longrightarrow> is_Exception e"
  by (auto simp: heartbeat_def raise_for_status_def is_Exception_exception_of
      split: reply.splits if_splits)

lemma heartbeat_loop_not_Raised: "heartbeat_loop aid schedule lg \<noteq> Raised e lg'"
proof (induction schedule arbitrary: lg)
  case Nil
  show ?case by simp
next
  case (Cons entry schedule)
  obtain still_running http where entry: "entry = (still_running, http)"
    by (cases entry)
  show ?case
  proof (cases "heartbeat http aid")
    case (Inl e')
    then have "is_Exception e'" by (rule heartbeat_raises_Exception)
    with Inl Cons.IH entry show ?thesis by simp
  next
    case (Inr u)
    with Cons.IH entry show ?thesis by simp
  qed
qed

lemma heartbeat_warnings_Cons:
  "heartbeat_warnings aid (http # https) =
     (case heartbeat http aid of Inl e \<Rightarrow> [WARNING ''Heartbeat failed: '' (Some e)] | Inr _ \<Rightarrow> [])
       @ heartbeat_warnings aid https"
  by (simp add: heartbeat_warnings_def List.map_filter_simps split: sum.split)

lemma heartbeat_loop_running:
  "heartbeat_loop aid (map (Pair True) https @ rest) lg =
     heartbeat_loop aid rest (lg @ heartbeat_warnings aid https)"
proof (induction https arbitrary: lg)
  case Nil
  show ?case by (simp add: heartbeat_warnings_def List.map_filter_simps)
next
  case (Cons http https)
  show ?case
  proof (cases "heartbeat http aid")
    case (Inl e)
    then have "is_Exception e" by (rule heartbeat_raises_Exception)
    with Inl Cons.IH show ?thesis by (simp add: heartbeat_warnings_Cons)
  next
    case (Inr u)
    with Cons.IH show ?thesis by (simp add: heartbeat_warnings_Cons)
  qed
qed

text \<open>
  C7. Every exception \<^verbatim>\<open>client.heartbeat\<close> raises, an \<^verbatim>\<open>HTTPStatusError\<close> for a
  status that is not 2xx (404 for an unknown agent id), a \<^verbatim>\<open>RequestError\<close> of the
  transport, the \<^verbatim>\<open>RuntimeError\<close> of a client that \<^verbatim>\<open>stop\<close> has closed, or any
  other exception of the \<^verbatim>\<open>httpx\<close> client, is an \<^verbatim>\<open>Exception\<close>; the loop writes a
  warning with it and goes on to the next iteration. No exception leaves the heartbeat
  loop. While \<^verbatim>\<open>_running\<close> reads true the loop goes through every iteration, sending
  one heartbeat in each and writing one warning for each that failed; it returns, with
  those warnings logged, at the first iteration where \<^verbatim>\<open>_running\<close> reads false.
\<close>

theorem heartbeat_loop_logs_and_continues:
  "heartbeat_loop aid schedule lg \<noteq> Raised e lg'
   \<and> heartbeat_loop aid (map (Pair True) https) lg = Looping (lg @ heartbeat_warnings aid https)
   \<and> heartbeat_loop aid (map (Pair True) https @ (False, http) # rest) lg =
       Returned (lg @ heartbeat_warnings aid https)
   \<and> heartbeat (\<lambda>req. Reply 404 body) aid = Inl (HTTPStatusError 404)
   \<and> (heartbeat http' aid = Inl e' \<longrightarrow>
        is_Exception e'
        \<and> heartbeat_loop aid ((True, http') # schedule) lg =
            heartbeat_loop aid schedule (lg @ [WARNING ''Heartbeat failed: '' (Some e')]))
   \<and> heartbeat (\<lambda>req. Failed x) aid = Inl (exception_of x)
   \<and> exception_of ClientClosed = RuntimeError ''Cannot send a request, as the client has been closed.''
   \<and> exception_of (TransportError m) = RequestError m
   \<and> exception_of (OtherFailure cls m) = OtherException cls m"
proof -
  have "heartbeat_loop aid (map (Pair True) https @ []) lg =
          heartbeat_loop aid [] (lg @ heartbeat_warnings aid https)"
    by (rule heartbeat_loop_running)
  then have looping: "heartbeat_loop aid (map (Pair True) https) lg =
      Looping (lg @ heartbeat_warnings aid https)"
    by simp
  have returned: "heartbeat_loop aid (map (Pair True) https @ (False, http) # rest) lg =
      Returned (lg @ heartbeat_warnings aid https)"
    by (simp add: heartbeat_loop_running)
  have unknown: "heartbeat (\<lambda>req. Reply 404 body) aid = Inl (HTTPStatusError 404)"
    by (simp add: heartbeat_def raise_for_status_def)
  have caught: "heartbeat http' aid = Inl e' \<longrightarrow>
        is_Exception e'
        \<and> heartbeat_loop aid ((True, http') # schedule) lg =
            heartbeat_loop aid schedule (lg @ [WARNING ''Heartbeat failed: '' (Some e')])"
    using heartbeat_raises_Exception [of http' aid e'] by auto
  have failed: "heartbeat (\<lambda>req. Failed x) aid = Inl (exception_of x)"
    by (simp add: heartbeat_def)
  from heartbeat_loop_not_Raised looping returned unknown caught failed show ?thesis
    by simp
qed

text \<open>
  C7 with a closed client: \<^verbatim>\<open>stop\<close> has closed the client while the loop still reads
  \<^verbatim>\<open>_running\<close> as true once, then as false. The heartbeat raises \<^verbatim>\<open>RuntimeError\<close>;
  the loop logs it and returns at the next iteration.
\<close>

theorem heartbeat_loop_logs_and_continues_witness:
  "heartbeat (\<lambda>req. Failed ClientClosed) 3 =
     Inl (RuntimeError ''Cannot send a request, as the client has been closed.'')
   \<and> heartbeat_loop 3 [(True, \<lambda>req. Failed ClientClosed), (False, \<lambda>req. Failed ClientClosed)] [] =
     Returned [WARNING ''Heartbeat failed: ''
                 (Some (RuntimeError ''Cannot send a request, as the client has been closed.''))]"
proof -
  have h: "heartbeat (\<lambda>req. Failed ClientClosed) 3 =
     Inl (RuntimeError ''Cannot send a request, as the client has been closed.'')"
    by (simp add: heartbeat_def)
  from heartbeat_loop_logs_and_continues
         [of 3 "[(False, \<lambda>req. Failed ClientClosed)]" "[]" _ _ _ _ _ _
             "\<lambda>req. Failed ClientClosed"
             "RuntimeError ''Cannot send a request, as the client has been closed.''"] h
  have "heartbeat_loop 3 ((True, \<lambda>req. Failed ClientClosed) # [(False, \<lambda>req. Failed ClientClosed)]) [] =
          heartbeat_loop 3 [(False, \<lambda>req. Failed ClientClosed)]
            ([] @ [WARNING ''Heartbeat failed: ''
                 (Some (RuntimeError ''Cannot send a request, as the client has been closed.''))])"
    by blast
  with h show ?thesis by simp
qed

text \<open>
  C8. When \<^verbatim>\<open>run\<close> comes back from the state \<^verbatim>\<open>start\<close> hands it, by returning or
  by raising, \<^verbatim>\<open>start\<close> comes back too, with the same outcome, after \<^verbatim>\<open>stop\<close>:
  \<^verbatim>\<open>_running\<close> is false and the client is closed. \<^verbatim>\<open>run\<close> is entered with
  \<^verbatim>\<open>_running\<close> true and the heartbeat thread started.
\<close>

theorem start_always_stops:
  assumes "run (s\<lparr>running := True, heartbeat_thread := True,
             logged := logged s @
               [INFO (''Agent '' @ agent_name s @ '' ('' @ uuid_str (agent_id s) @ '') started'')]\<rparr>)
           = Some (raised, s')"
  shows "\<exists>s''. start run s = Some (raised, s'') \<and> \<not> running s'' \<and> client_closed s''
           \<and> s'' = stop s'"
  using assms by (simp add: start_def stop_def Let_def)

text \<open>
  C8 at a concrete agent: a \<^verbatim>\<open>run\<close> that raises \<^verbatim>\<open>KeyboardInterrupt\<close> at once,
  leaving the agent as it found it. \<^verbatim>\<open>start\<close> raises the same exception with the
  agent stopped and the client closed.
\<close>

theorem start_always_stops_witness:
  "\<exists>s''. start (\<lambda>s. Some (Some KeyboardInterrupt, s)) example_agent_state
           = Some (Some KeyboardInterrupt, s'')
         \<and> \<not> running s'' \<and> client_closed s''"
proof -
  let ?s = "example_agent_state"
  let ?s1 = "?s\<lparr>running := True, heartbeat_thread := True,
             logged := logged ?s @
               [INFO (''Agent '' @ agent_name ?s @ '' ('' @ uuid_str (agent_id ?s) @ '') started'')]\<rparr>"
  have "(\<lambda>s. Some (Some KeyboardInterrupt, s)) ?s1 = Some (Some KeyboardInterrupt, ?s1)"
    by simp
  from start_always_stops [of "\<lambda>s. Some (Some KeyboardInterrupt, s)" ?s "Some KeyboardInterrupt" ?s1, OF this]
  show ?thesis by blast
qed

subsection \<open>LocalTools: reading back what was written\<close>

declare mkdir_parents.simps [simp del]


















subsection \<open>The directory walkers\<close>

declare walk.simps [simp del] tree.simps [simp del]

lemma listed_below_direct:
  assumes "current_depth < max_depth" "fs p = Some (Dir names)" "n \<in> set names"
  shows "listed_below fs p prefix max_depth current_depth
           (prefix @ n @ (if is_dir fs (p @ [n]) then ''/'' else []))"
  unfolding listed_below_def
  using assms by (intro exI [of _ 0] exI [of _ p] exI [of _ n] exI [of _ names]) simp

lemma listed_below_deeper:
  assumes "listed_below fs (p @ [n]) (prefix @ ''  '') max_depth (current_depth + 1) l"
  shows "listed_below fs p prefix max_depth current_depth l"
proof -
  from assms obtain k q m names where
    k: "current_depth + 1 + int k < max_depth" and
    len: "length q = length (p @ [n]) + k" and
    pre: "take (length (p @ [n])) q = p @ [n]" and
    dir: "fs q = Some (Dir names)" "m \<in> set names" and
    l: "l = (prefix @ ''  '') @ replicate (2 * k) CHR '' '' @ m @ (if is_dir fs (q @ [m]) then ''/'' else [])"
    unfolding listed_below_def by blast
  have "take (length p) (take (length (p @ [n])) q) = take (length p) (p @ [n])"
    using pre by simp
  then have pre': "take (length p) q = p" by simp
  have "current_depth + int (Suc k) < max_depth" using k by simp
  moreover have "length q = length p + Suc k" using len by simp
  moreover have "l = prefix @ replicate (2 * Suc k) CHR '' '' @ m @ (if is_dir fs (q @ [m]) then ''/'' else [])"
    using l by simp
  ultimately show ?thesis
    unfolding listed_below_def using pre' dir by blast
qed

lemma fold_Inl: "(\<And>x. F x (Inl e) = Inl e) \<Longrightarrow> fold F xs (Inl e) = Inl e"
  by (induction xs) simp_all

lemma fold_appends:
  assumes err: "\<And>x e. F x (Inl e) = Inl e"
    and step: "\<And>x ls out. x \<in> set xs \<Longrightarrow> F x (Inr ls) = Inr out \<Longrightarrow>
                 \<exists>new. out = ls @ new \<and> (\<forall>l\<in>set new. R l)"
    and run: "fold F xs (Inr ls0) = Inr out"
  shows "\<exists>new. out = ls0 @ new \<and> (\<forall>l\<in>set new. R l)"
  using step run
proof (induction xs arbitrary: ls0)
  case Nil
  then show ?case by simp
next
  case (Cons x xs)
  show ?case
  proof (cases "F x (Inr ls0)")
    case (Inl e)
    then have "fold F (x # xs) (Inr ls0) = Inl e" by (simp add: fold_Inl err)
    with Cons.prems(2) show ?thesis by simp
  next
    case (Inr mid)
    then obtain new1 where new1: "mid = ls0 @ new1" "\<forall>l\<in>set new1. R l"
      using Cons.prems(1) [of x ls0 mid] by auto
    have rest: "fold F xs (Inr mid) = Inr out" using Cons.prems(2) Inr by simp
    have "\<exists>new. out = mid @ new \<and> (\<forall>l\<in>set new. R l)"
    proof (rule Cons.IH)
      show "\<exists>new. out' = ls @ new \<and> (\<forall>l\<in>set new. R l)"
        if "x' \<in> set xs" "F x' (Inr ls) = Inr out'" for x' ls out'
        using that Cons.prems(1) [of x' ls out'] by simp
      show "fold F xs (Inr mid) = Inr out" by (rule rest)
    qed
    then obtain new2 where new2: "out = mid @ new2" "\<forall>l\<in>set new2. R l"
      by blast
    from new1 new2 have "out = ls0 @ (new1 @ new2) \<and> (\<forall>l\<in>set (new1 @ new2). R l)" by auto
    then show ?thesis by blast
  qed
qed

lemma set_sorted_entries: "set (sorted_entries fs entries) = set entries"
  by (simp add: sorted_entries_def)

lemma iterdir_Inr:
  "iterdir fs p = Inr entries \<Longrightarrow> \<exists>names. fs p = Some (Dir names) \<and> entries = map (\<lambda>n. p @ [n]) names"
  by (auto simp: iterdir_def split: option.splits node.splits)

lemma name_snoc: "name (p @ [n]) = n"
  by (simp add: name_def)

lemma walk_appends:
  "walk fs p prefix max_depth current_depth lines = Inr out \<Longrightarrow>
     \<exists>new. out = lines @ new \<and> (\<forall>l\<in>set new. listed_below fs p prefix max_depth current_depth l)"
proof (induction fs p prefix max_depth current_depth lines arbitrary: out rule: walk.induct)
  case (1 fs p prefix max_depth current_depth lines)
  show ?case
  proof (cases "max_depth \<le> current_depth")
    case True
    with "1.prems" have "out = lines" by (simp add: walk.simps)
    then show ?thesis by simp
  next
    case deeper: False
    show ?thesis
    proof (cases "iterdir fs p")
      case (Inl e)
      with deeper "1.prems" have "out = lines" by (simp add: walk.simps split: if_splits)
      then show ?thesis by simp
    next
      case (Inr entries)
      then obtain names where names: "fs p = Some (Dir names)" "entries = map (\<lambda>n. p @ [n]) names"
        using iterdir_Inr by blast
      let ?F = "\<lambda>entry acc.
                  case acc of
                    Inl e \<Rightarrow> Inl e
                  | Inr ls \<Rightarrow>
                      (if startswith_dot (name entry) then Inr ls
                       else if is_dir fs entry
                         then walk fs entry (prefix @ ''  '') max_depth (current_depth + 1)
                                (ls @ [prefix @ name entry @ ''/''])
                         else Inr (ls @ [prefix @ name entry]))"
      have run: "fold ?F (sorted_entries fs entries) (Inr lines) = Inr out"
        using "1.prems" deeper Inr by (simp add: walk.simps)
      have step: "\<exists>new. out' = ls @ new \<and> (\<forall>l\<in>set new. listed_below fs p prefix max_depth current_depth l)"
        if x: "x \<in> set (sorted_entries fs entries)" and Fx: "?F x (Inr ls) = Inr out'" for x ls out'
      proof -
        from x names obtain n where n: "n \<in> set names" "x = p @ [n]"
          by (auto simp: set_sorted_entries)
        have line: "listed_below fs p prefix max_depth current_depth
                      (prefix @ n @ (if is_dir fs (p @ [n]) then ''/'' else []))"
          using deeper names(1) n(1) by (intro listed_below_direct) auto
        show ?thesis
        proof (cases "startswith_dot (name x)")
          case True
          with Fx have "out' = ls" by simp
          then show ?thesis by simp
        next
          case nodot: False
          show ?thesis
          proof (cases "is_dir fs x")
            case True
            with nodot Fx have w: "walk fs x (prefix @ ''  '') max_depth (current_depth + 1)
                (ls @ [prefix @ name x @ ''/'']) = Inr out'" by simp
            from "1.IH" [OF deeper Inr x nodot True w]
            obtain new where new: "out' = (ls @ [prefix @ name x @ ''/'']) @ new"
              "\<forall>l\<in>set new. listed_below fs x (prefix @ ''  '') max_depth (current_depth + 1) l"
              by blast
            have "\<forall>l\<in>set new. listed_below fs p prefix max_depth current_depth l"
              using new(2) n(2) listed_below_deeper by blast
            moreover have "listed_below fs p prefix max_depth current_depth (prefix @ name x @ ''/'')"
              using line True n(2) by (simp add: name_snoc)
            ultimately have "out' = ls @ ((prefix @ name x @ ''/'') # new)
              \<and> (\<forall>l\<in>set ((prefix @ name x @ ''/'') # new). listed_below fs p prefix max_depth current_depth l)"
              using new(1) by simp
            then show ?thesis by blast
          next
            case False
            with nodot Fx have "out' = ls @ [prefix @ name x]" by auto
            moreover have "listed_below fs p prefix max_depth current_depth (prefix @ name x)"
              using line False n(2) by (simp add: name_snoc)
            ultimately have "out' = ls @ [prefix @ name x]
              \<and> (\<forall>l\<in>set [prefix @ name x]. listed_below fs p prefix max_depth current_depth l)"
              by simp
            then show ?thesis by blast
          qed
        qed
      qed
      show ?thesis
        by (rule fold_appends [where F = ?F, OF _ step run]) simp_all
    qed
  qed
qed

lemma tree_appends:
  "tree fs p indent max_depth current lines = Inr out \<Longrightarrow>
     \<exists>new. out = lines @ new \<and> (\<forall>l\<in>set new. listed_below fs p indent max_depth current l)"
proof (induction fs p indent max_depth current lines arbitrary: out rule: tree.induct)
  case (1 fs p indent max_depth current lines)
  show ?case
  proof (cases "max_depth \<le> current \<or> \<not> is_dir fs p")
    case True
    with "1.prems" have "out = lines" by (simp add: tree.simps)
    then show ?thesis by simp
  next
    case deeper: False
    show ?thesis
    proof (cases "iterdir fs p")
      case (Inl e)
      with deeper "1.prems" have "out = lines" by (simp add: tree.simps split: if_splits)
      then show ?thesis by simp
    next
      case (Inr entries)
      then obtain names where names: "fs p = Some (Dir names)" "entries = map (\<lambda>n. p @ [n]) names"
        using iterdir_Inr by blast
      let ?F = "\<lambda>entry acc.
                  case acc of
                    Inl e \<Rightarrow> Inl e
                  | Inr ls \<Rightarrow>
                      (if startswith_dot (name entry) \<or> name entry \<in> set skipped_names then Inr ls
                       else if is_dir fs entry
                         then tree fs entry (indent @ ''  '') max_depth (current + 1)
                                (ls @ [indent @ name entry @ ''/''])
                         else Inr (ls @ [indent @ name entry]))"
      have run: "fold ?F (sorted_entries fs entries) (Inr lines) = Inr out"
        using "1.prems" deeper Inr by (simp add: tree.simps)
      have step: "\<exists>new. out' = ls @ new \<and> (\<forall>l\<in>set new. listed_below fs p indent max_depth current l)"
        if x: "x \<in> set (sorted_entries fs entries)" and Fx: "?F x (Inr ls) = Inr out'" for x ls out'
      proof -
        from x names obtain n where n: "n \<in> set names" "x = p @ [n]"
          by (auto simp: set_sorted_entries)
        have line: "listed_below fs p indent max_depth current
                      (indent @ n @ (if is_dir fs (p @ [n]) then ''/'' else []))"
          using deeper names(1) n(1) by (intro listed_below_direct) auto
        show ?thesis
        proof (cases "startswith_dot (name x) \<or> name x \<in> set skipped_names")
          case True
          with Fx have "out' = ls" by simp
          then show ?thesis by simp
        next
          case nodot: False
          show ?thesis
          proof (cases "is_dir fs x")
            case True
            with nodot Fx have w: "tree fs x (indent @ ''  '') max_depth (current + 1)
                (ls @ [indent @ name x @ ''/'']) = Inr out'" by simp
            from "1.IH" [OF deeper Inr x nodot True w]
            obtain new where new: "out' = (ls @ [indent @ name x @ ''/'']) @ new"
              "\<forall>l\<in>set new. listed_below fs x (indent @ ''  '') max_depth (current + 1) l"
              by blast
            have "\<forall>l\<in>set new. listed_below fs p indent max_depth current l"
              using new(2) n(2) listed_below_deeper by blast
            moreover have "listed_below fs p indent max_depth current (indent @ name x @ ''/'')"
              using line True n(2) by (simp add: name_snoc)
            ultimately have "out' = ls @ ((indent @ name x @ ''/'') # new)
              \<and> (\<forall>l\<in>set ((indent @ name x @ ''/'') # new). listed_below fs p indent max_depth current l)"
              using new(1) by simp
            then show ?thesis by blast
          next
            case False
            with nodot Fx have "out' = ls @ [indent @ name x]" by auto
            moreover have "listed_below fs p indent max_depth current (indent @ name x)"
              using line False n(2) by (simp add: name_snoc)
            ultimately have "out' = ls @ [indent @ name x]
              \<and> (\<forall>l\<in>set [indent @ name x]. listed_below fs p indent max_depth current l)"
              by simp
            then show ?thesis by blast
          qed
        qed
      qed
      show ?thesis
        by (rule fold_appends [where F = ?F, OF _ step run]) simp_all
    qed
  qed
qed

lemma walk_total: "walk_dom x"
proof -
  have "All walk_dom"
    by (relation "measure (\<lambda>(fs, p, prefix, max_depth, current_depth, lines). nat (max_depth - current_depth))") auto
  then show ?thesis by (rule spec)
qed

lemma tree_total: "tree_dom x"
proof -
  have "All tree_dom"
    by (relation "measure (\<lambda>(fs, p, indent, max_depth, current, lines). nat (max_depth - current))") auto
  then show ?thesis by (rule spec)
qed

text \<open>
  C10. Both walkers terminate on every file system, also one whose directories nest
  without end, and for every \<^verbatim>\<open>max_depth\<close>: each recursive call has a larger
  \<^verbatim>\<open>current_depth\<close>, and a call whose \<^verbatim>\<open>current_depth\<close> has reached \<^verbatim>\<open>max_depth\<close>
  returns at once, leaving \<^verbatim>\<open>lines\<close> as it is. A call that returns has only
  appended to \<^verbatim>\<open>lines\<close>, and every line it appended names an entry of a directory
  whose depth is below \<^verbatim>\<open>max_depth\<close>.
\<close>

theorem walkers_terminate_below_max_depth:
  "walk_dom (fs, p, prefix, max_depth, current_depth, lines)
   \<and> tree_dom (fs, p, prefix, max_depth, current_depth, lines)
   \<and> (max_depth \<le> current_depth \<longrightarrow>
        walk fs p prefix max_depth current_depth lines = Inr lines
        \<and> tree fs p prefix max_depth current_depth lines = Inr lines)
   \<and> (\<forall>out. walk fs p prefix max_depth current_depth lines = Inr out \<longrightarrow>
        (\<exists>new. out = lines @ new
           \<and> (\<forall>l\<in>set new. listed_below fs p prefix max_depth current_depth l)))
   \<and> (\<forall>out. tree fs p prefix max_depth current_depth lines = Inr out \<longrightarrow>
        (\<exists>new. out = lines @ new
           \<and> (\<forall>l\<in>set new. listed_below fs p prefix max_depth current_depth l)))"
proof -
  have stop: "max_depth \<le> current_depth \<longrightarrow>
        walk fs p prefix max_depth current_depth lines = Inr lines
        \<and> tree fs p prefix max_depth current_depth lines = Inr lines"
    by (simp add: walk.simps tree.simps)
  from walk_total tree_total stop walk_appends tree_appends show ?thesis
    by blast
qed

text \<open>
  C10 on the small repository, listed from its root with \<^verbatim>\<open>max_depth\<close> 2: the
  listing has the entries of the root and of \<^verbatim>\<open>src\<close>, and stops above
  \<^verbatim>\<open>src/lib/util.py\<close>, whose directory has depth 2.
\<close>

theorem walkers_terminate_below_max_depth_witness:
  "walk repo_fs [''repo''] [] 2 0 [] = Inr [''src/'', ''  lib/'', ''  main.py'', ''README.md'']
   \<and> tree repo_fs [''repo''] [] 2 0 [] = Inr [''src/'', ''  lib/'', ''  main.py'', ''README.md'']
   \<and> walk_dom (repo_fs, [''repo''], [], 2, 0, [])
   \<and> listed_below repo_fs [''repo''] [] 2 0 ''  lib/''"
proof -
  have w: "walk repo_fs [''repo''] [] 2 0 [] = Inr [''src/'', ''  lib/'', ''  main.py'', ''README.md'']"
    by code_simp
  have t: "tree repo_fs [''repo''] [] 2 0 [] = Inr [''src/'', ''  lib/'', ''  main.py'', ''README.md'']"
    by code_simp
  from walkers_terminate_below_max_depth [of repo_fs "[''repo'']" "[]" 2 0 "[]"] w
  have "walk_dom (repo_fs, [''repo''], [], 2, 0, [])"
    and "\<exists>new. [''src/'', ''  lib/'', ''  main.py'', ''README.md''] = [] @ new
           \<and> (\<forall>l\<in>set new. listed_below repo_fs [''repo''] [] 2 0 l)"
    by blast+
  then show ?thesis using w t by auto
qed

subsection \<open>Ownership across transitions\<close>








subsection \<open>The requests of the example agent and of the pipeline script\<close>

lemma transition_requests_append:
  "transition_requests (xs @ ys) = transition_requests xs @ transition_requests ys"
  by (simp add: transition_requests_def List.map_filter_def)

lemma posted_types_append: "posted_types (xs @ ys) = posted_types xs @ posted_types ys"
  by (simp add: posted_types_def List.map_filter_def)

lemma quiet_Nil: "quiet []"
  by (simp add: quiet_def transition_requests_def posted_types_def List.map_filter_def)

lemma quiet_append: "quiet xs \<Longrightarrow> quiet ys \<Longrightarrow> quiet (xs @ ys)"
  by (simp add: quiet_def transition_requests_append posted_types_append)

lemma quiet_ok: "quiet xs \<Longrightarrow> agent_requests_ok xs"
  by (simp add: quiet_def agent_requests_ok_def)

lemma quiet_then_ok: "quiet xs \<Longrightarrow> agent_requests_ok ys \<Longrightarrow> agent_requests_ok (xs @ ys)"
  by (auto simp: quiet_def agent_requests_ok_def transition_requests_append posted_types_append)

lemma ok_then_quiet: "agent_requests_ok xs \<Longrightarrow> quiet ys \<Longrightarrow> agent_requests_ok (xs @ ys)"
  by (auto simp: quiet_def agent_requests_ok_def transition_requests_append posted_types_append)

lemma grows_refl: "grows quiet w w"
  unfolding grows_def using quiet_Nil by (intro exI [of _ "[]"]) simp

lemma grows_same: "w_sent w' = w_sent w \<Longrightarrow> grows quiet w w'"
  unfolding grows_def using quiet_Nil by (intro exI [of _ "[]"]) simp

lemma grows_quiet_ok: "grows quiet w w' \<Longrightarrow> grows agent_requests_ok w w'"
  unfolding grows_def using quiet_ok by blast

lemma grows_trans: "grows quiet w w1 \<Longrightarrow> grows agent_requests_ok w1 w2 \<Longrightarrow> grows agent_requests_ok w w2"
  unfolding grows_def using quiet_then_ok by fastforce

lemma grows_trans_quiet: "grows quiet w w1 \<Longrightarrow> grows quiet w1 w2 \<Longrightarrow> grows quiet w w2"
  unfolding grows_def using quiet_append by fastforce

lemma grows_ok_then_quiet: "grows agent_requests_ok w w1 \<Longrightarrow> grows quiet w1 w2 \<Longrightarrow> grows agent_requests_ok w w2"
  unfolding grows_def using ok_then_quiet by fastforce

lemma grows_log: "grows P w w' \<Longrightarrow> grows P w (w'\<lparr>w_logged := l\<rparr>)"
  by (simp add: grows_def)

lemma quiet_post:
  "post_type \<in> {PROGRESS, BLOCKER, ARTIFACT} \<Longrightarrow>
     quiet [fst (post_message_request thread_id aid post_type content g)]"
  by (auto simp: quiet_def transition_requests_def posted_types_def List.map_filter_def
      post_message_request_def agent_post_types_def split: prod.split)

lemma quiet_open_pr: "quiet [fst (open_pr_request title' body head bs g)]"
  by (auto simp: quiet_def transition_requests_def posted_types_def List.map_filter_def
      open_pr_request_def split: prod.split)

lemma quiet_threads: "quiet [threads_request task]"
  by (auto simp: quiet_def transition_requests_def posted_types_def List.map_filter_def
      threads_request_def)

lemma ok_update:
  "agent_requests_ok [fst (update_task_status_request task_id IN_PROGRESS IN_REVIEW g)]"
  by (auto simp: agent_requests_ok_def transition_requests_def posted_types_def List.map_filter_def
      update_task_status_request_def split: prod.split)

lemma post_update_grows:
  "post_type \<in> {PROGRESS, BLOCKER, ARTIFACT} \<Longrightarrow>
     grows quiet w (snd (post_update ev self thread_id content post_type w))"
  unfolding grows_def post_update_def client_post_message_def
  by (auto split: prod.split intro: quiet_post)

lemma client_open_pr_grows: "grows quiet w (snd (client_open_pr ev title' body head bs w))"
  unfolding grows_def client_open_pr_def
  by (auto split: prod.split intro: quiet_open_pr)

lemma client_update_grows:
  "grows agent_requests_ok w (snd (client_update_task_status ev task_id IN_PROGRESS IN_REVIEW w))"
  unfolding grows_def client_update_task_status_def
  by (auto split: prod.split intro: ok_update)

lemma shell_same:
  "snd (git_branch ev lt b w) = w" "snd (git_commit ev lt m w) = w" "snd (git_push ev lt b w) = w"
  by (simp_all add: git_branch_def git_commit_def git_push_def run_shell_def)

lemma edit_readme_sent: "w_sent (snd (edit_readme ev self task w)) = w_sent w"
  by (simp add: edit_readme_def write_fresh_readme_def split: sum.split)

lemma get_threads_grows: "grows quiet w (snd (get_threads ev task w))"
  unfolding grows_def get_threads_def using quiet_threads by auto

lemma then_do_grows:
  assumes "grows quiet w (snd step)"
    and "\<And>x w1. grows agent_requests_ok w1 (snd (k x w1))"
  shows "grows agent_requests_ok w (snd (then_do step k))"
proof (cases step)
  case (Pair r w1)
  show ?thesis
  proof (cases r)
    case (Inl e)
    with Pair assms(1) show ?thesis by (simp add: then_do_def grows_quiet_ok)
  next
    case (Inr x)
    with Pair assms(1) assms(2) [of w1 x] show ?thesis
      by (simp add: then_do_def) (rule grows_trans)
  qed
qed

lemma then_do_return_grows:
  assumes "grows quiet w (snd step)"
  shows "grows agent_requests_ok w (snd (then_do step (\<lambda>u w'. (None, w'))))"
  by (rule then_do_grows [OF assms]) (simp add: grows_quiet_ok grows_refl)

lemma completed_work_grows: "grows quiet w (snd (completed_work task w))"
  by (simp add: completed_work_def grows_log grows_refl)

lemma status_update_failed_grows: "grows quiet w (snd (status_update_failed task e w))"
  by (simp add: status_update_failed_def completed_work_def grows_same)

lemma move_to_review_grows: "grows agent_requests_ok w (snd (move_to_review ev self task thread_id w))"
proof -
  let ?u = "client_update_task_status ev (t_id task) IN_PROGRESS IN_REVIEW w"
  obtain r w1 where u: "?u = (r, w1)" by (cases ?u)
  have g1: "grows agent_requests_ok w w1" using client_update_grows [of w ev "t_id task"] u by simp
  show ?thesis
  proof (cases r)
    case (Inl e)
    with u g1 show ?thesis
      by (simp add: move_to_review_def grows_ok_then_quiet [OF _ status_update_failed_grows])
  next
    case (Inr x)
    let ?p = "post_update ev self thread_id ''Task moved to review.'' PROGRESS w1"
    obtain r2 w2 where p: "?p = (r2, w2)" by (cases ?p)
    have g2: "grows quiet w1 w2" using post_update_grows [of PROGRESS w1 ev self thread_id "''Task moved to review.''"] p by simp
    have g12: "grows agent_requests_ok w w2" by (rule grows_ok_then_quiet [OF g1 g2])
    show ?thesis
    proof (cases r2)
      case (Inl e)
      with u Inr p g12 show ?thesis
        by (simp add: move_to_review_def grows_ok_then_quiet [OF _ status_update_failed_grows])
    next
      case (Inr y)
      with u \<open>r = Inr x\<close> p g12 show ?thesis
        by (simp add: move_to_review_def grows_ok_then_quiet [OF _ completed_work_grows])
    qed
  qed
qed

lemma pr_failed_grows: "grows agent_requests_ok w (snd (pr_failed ev self thread_id e w))"
  by (simp add: pr_failed_def then_do_return_grows post_update_grows grows_quiet_ok grows_refl)

lemma open_the_pr_grows: "grows agent_requests_ok w (snd (open_the_pr ev self task thread_id w))"
  unfolding open_the_pr_def
proof (rule then_do_grows)
  show "grows quiet w (snd (post_update ev self thread_id ''Opening PR...'' PROGRESS w))"
    by (simp add: post_update_grows)
next
  fix u w1
  let ?o = "client_open_pr ev (''feat: '' @ t_title task)
              (''Automated PR for task '' @ uuid_str (t_id task) @ [LF, LF] @ t_description task)
              (t_branch_name task) ''main'' w1"
  obtain r w2 where o: "?o = (r, w2)" by (cases ?o)
  have g1: "grows quiet w1 w2" using client_open_pr_grows [of w1 ev] o
    by (metis snd_conv)
  show "grows agent_requests_ok w1
          (snd (case ?o of
                  (Inl e, w2) \<Rightarrow> pr_failed ev self thread_id e w2
                | (Inr pr, w2) \<Rightarrow>
                    (case post_update ev self thread_id (''PR opened: '' @ pr_url pr) ARTIFACT w2 of
                       (Inl e, w3) \<Rightarrow> pr_failed ev self thread_id e w3
                     | (Inr u', w3) \<Rightarrow> move_to_review ev self task thread_id w3)))"
  proof (cases r)
    case (Inl e)
    with o show ?thesis by (simp add: grows_trans [OF g1 pr_failed_grows])
  next
    case (Inr pr)
    let ?p = "post_update ev self thread_id (''PR opened: '' @ pr_url pr) ARTIFACT w2"
    obtain r3 w3 where p: "?p = (r3, w3)" by (cases ?p)
    have g2: "grows quiet w2 w3" using post_update_grows [of ARTIFACT w2 ev self thread_id "''PR opened: '' @ pr_url pr"] p by simp
    have g12: "grows quiet w1 w3" by (rule grows_trans_quiet [OF g1 g2])
    show ?thesis
    proof (cases r3)
      case (Inl e)
      with o Inr p show ?thesis by (simp add: grows_trans [OF g12 pr_failed_grows])
    next
      case (Inr y)
      with o \<open>r = Inr pr\<close> p show ?thesis by (simp add: grows_trans [OF g12 move_to_review_grows])
    qed
  qed
qed

lemma push_the_branch_grows: "grows agent_requests_ok w (snd (push_the_branch ev self task thread_id w))"
  unfolding push_the_branch_def
  by (intro then_do_grows then_do_return_grows post_update_grows)
    (auto simp: shell_same grows_refl split: prod.split intro!: then_do_return_grows post_update_grows open_the_pr_grows)

lemma commit_the_change_grows: "grows agent_requests_ok w (snd (commit_the_change ev self task thread_id w))"
  unfolding commit_the_change_def
  by (intro then_do_grows then_do_return_grows post_update_grows)
    (auto simp: shell_same grows_refl split: prod.split intro!: then_do_return_grows post_update_grows push_the_branch_grows)

lemma make_the_branch_grows: "grows agent_requests_ok w (snd (make_the_branch ev self task thread_id w))"
  unfolding make_the_branch_def
  by (intro then_do_grows)
    (auto simp: shell_same grows_refl edit_readme_sent grows_same split: prod.split
      intro!: then_do_grows then_do_return_grows post_update_grows commit_the_change_grows)

lemma explore_grows: "grows agent_requests_ok w (snd (explore ev self task thread_id w))"
  unfolding explore_def
  by (intro then_do_grows post_update_grows make_the_branch_grows) (simp_all add: grows_refl)

lemma work_on_task_grows: "grows agent_requests_ok w (snd (work_on_task ev self task w))"
proof -
  let ?w0 = "w\<lparr>w_logged := w_logged w @
      [INFO (''Working on task: '' @ t_title task @ '' ('' @ uuid_str (t_id task) @ '')'')]\<rparr>"
  have "grows agent_requests_ok ?w0 (snd (work_on_task ev self task w))"
    unfolding work_on_task_def
    by (intro then_do_grows get_threads_grows)
      (auto split: list.split simp: grows_log grows_refl grows_quiet_ok intro: explore_grows)
  then show ?thesis by (simp add: grows_def)
qed


lemma transition_requests_post:
  "transition_requests [fst (post_message_request thread_id aid post_type content g)] = []"
  by (simp add: transition_requests_def List.map_filter_def post_message_request_def split: prod.split)

lemma transition_requests_open_pr:
  "transition_requests [fst (open_pr_request title' body head bs g)] = []"
  by (simp add: transition_requests_def List.map_filter_def open_pr_request_def split: prod.split)

lemma transition_requests_threads: "transition_requests [threads_request task] = []"
  by (simp add: transition_requests_def List.map_filter_def threads_request_def)

lemma transition_requests_update:
  "transition_requests [fst (update_task_status_request task_id from_status to_status g)] =
     [(TaskStatus_value from_status, TaskStatus_value to_status)]"
  by (simp add: transition_requests_def List.map_filter_def update_task_status_request_def
      split: prod.split)

lemma transition_requests_Cons2:
  "transition_requests (r # r' # rs) = transition_requests [r] @ transition_requests (r' # rs)"
  using transition_requests_append [of "[r]" "r' # rs"] by simp

lemma willing_post_update:
  "post_update willing_env self thread_id content post_type w =
     (Inr (), w\<lparr>w_rng := (w_rng w)\<lparr>drawn := drawn (w_rng w) + 1\<rparr>,
               w_sent := w_sent w @
                 [fst (post_message_request thread_id (agent_id self) post_type content (w_rng w))]\<rparr>)"
  by (simp add: post_update_def client_post_message_def post_message_def post_message_request_def
      uuid4_drawn willing_env_def accepting_server_def raise_for_status_def)

lemma willing_open_pr:
  "client_open_pr willing_env title' body head bs w =
     (Inr stub_pr, w\<lparr>w_rng := (w_rng w)\<lparr>drawn := drawn (w_rng w) + 1\<rparr>,
               w_sent := w_sent w @ [fst (open_pr_request title' body head bs (w_rng w))]\<rparr>)"
  by (simp add: client_open_pr_def open_pr_def open_pr_request_def
      uuid4_drawn willing_env_def accepting_server_def raise_for_status_def)

lemma willing_update_task_status:
  "client_update_task_status willing_env task_id from_status to_status w =
     (Inr None, w\<lparr>w_rng := (w_rng w)\<lparr>drawn := drawn (w_rng w) + 1\<rparr>,
               w_sent := w_sent w @
                 [fst (update_task_status_request task_id from_status to_status (w_rng w))]\<rparr>)"
  by (simp add: client_update_task_status_def update_task_status_def update_task_status_request_def
      uuid4_drawn willing_env_def accepting_server_def raise_for_status_def)

lemma willing_shell:
  "git_branch willing_env lt b w = (Inr ([], 0), w)"
  "git_commit willing_env lt m w = (Inr ([], 0), w)"
  "git_push willing_env lt b w = (Inr ([], 0), w)"
  by (simp_all add: git_branch_def git_commit_def git_push_def run_shell_def willing_env_def)

lemma willing_move_to_review:
  "transition_requests (w_sent (snd (move_to_review willing_env self task thread_id w))) =
     transition_requests (w_sent w) @ [(''in_progress'', ''in_review'')]"
  by (simp add: move_to_review_def willing_update_task_status willing_post_update completed_work_def
      transition_requests_append transition_requests_Cons2 transition_requests_post
      transition_requests_update)

lemma willing_open_the_pr:
  "transition_requests (w_sent (snd (open_the_pr willing_env self task thread_id w))) =
     transition_requests (w_sent w) @ [(''in_progress'', ''in_review'')]"
  by (simp add: open_the_pr_def then_do_def willing_post_update willing_open_pr
      willing_move_to_review transition_requests_append transition_requests_Cons2
      transition_requests_post transition_requests_open_pr)

lemma willing_push_the_branch:
  "transition_requests (w_sent (snd (push_the_branch willing_env self task thread_id w))) =
     transition_requests (w_sent w) @ [(''in_progress'', ''in_review'')]"
  by (simp add: push_the_branch_def then_do_def willing_post_update willing_shell willing_open_the_pr
      transition_requests_append transition_requests_Cons2 transition_requests_post)

lemma willing_commit_the_change:
  "transition_requests (w_sent (snd (commit_the_change willing_env self task thread_id w))) =
     transition_requests (w_sent w) @ [(''in_progress'', ''in_review'')]"
  by (simp add: commit_the_change_def then_do_def willing_post_update willing_shell
      willing_push_the_branch transition_requests_append transition_requests_Cons2
      transition_requests_post)

lemma repo_readme: "read_file repo_tools repo_fs ''README.md'' 0 None = Inr ''# Project''"
  by code_simp

lemma repo_write_readme:
  "write_file Posix repo_tools repo_fs ''README.md'' content =
     Inr (repo_fs([''repo'', ''README.md''] \<mapsto> File (write_newlines Posix content)))"
  by (simp add: write_file_def repo_tools_def repo_fs_def joinpath_def parts_def
        mkdir_parents.simps os_mkdir_def path_is_dir_def is_dir_def open_write_def)

lemma repo_edit_readme:
  assumes "w_fs w = repo_fs"
  shows "fst (edit_readme willing_env example_agent assigned_task w) = Inr ()"
proof -
  have tl: "ea_tools example_agent = repo_tools" and os: "e_os willing_env = Posix"
    by (simp_all add: example_agent_def willing_env_def)
  show ?thesis
    using assms by (simp add: edit_readme_def tl os repo_readme repo_write_readme)
qed

lemma repo_get_tree:
  "get_tree (ea_nav example_agent) repo_fs ''.'' 2 =
     Inr (''src/'' @ [LF] @ ''  lib/'' @ [LF] @ ''  main.py'' @ [LF] @ ''README.md'')"
proof -
  have "get_tree \<lparr>nav_working_dir = ''/repo''\<rparr> repo_fs ''.'' 2 =
          Inr (''src/'' @ [LF] @ ''  lib/'' @ [LF] @ ''  main.py'' @ [LF] @ ''README.md'')"
    by code_simp
  then show ?thesis by (simp add: example_agent_def)
qed

lemma willing_make_the_branch:
  assumes "w_fs w = repo_fs"
  shows "transition_requests (w_sent (snd (make_the_branch willing_env example_agent assigned_task thread_id w))) =
     transition_requests (w_sent w) @ [(''in_progress'', ''in_review'')]"
proof -
  obtain r w' where e: "edit_readme willing_env example_agent assigned_task w = (r, w')"
    by (cases "edit_readme willing_env example_agent assigned_task w")
  have "r = Inr ()" using repo_edit_readme [OF assms] e by simp
  moreover have "w_sent w' = w_sent w" using edit_readme_sent [of willing_env example_agent assigned_task w] e by simp
  ultimately show ?thesis
    using e by (simp add: make_the_branch_def then_do_def willing_shell willing_commit_the_change)
qed

lemma willing_explore:
  assumes "w_fs w = repo_fs"
  shows "transition_requests (w_sent (snd (explore willing_env example_agent assigned_task thread_id w))) =
     transition_requests (w_sent w) @ [(''in_progress'', ''in_review'')]"
  using assms
  by (simp add: explore_def then_do_def willing_post_update willing_make_the_branch repo_get_tree
      transition_requests_append transition_requests_Cons2 transition_requests_post)

lemma willing_work_on_task:
  "transition_requests (w_sent (snd (work_on_task willing_env example_agent assigned_task fresh_world))) =
     [(''in_progress'', ''in_review'')]"
proof -
  have "get_threads willing_env assigned_task w =
          (Inr [9], w\<lparr>w_sent := w_sent w @ [threads_request assigned_task]\<rparr>)" for w
    by (simp add: get_threads_def willing_env_def accepting_server_def)
  then show ?thesis
    by (simp add: work_on_task_def then_do_def willing_explore fresh_world_def
        transition_requests_append transition_requests_threads)
qed


lemma scenario_transitions:
  "List.map_filter sim_transition (scenario_happy_path cfg coder_id qa_id rev_id task_id claimed thread) =
     [(''backlog'', ''ready'')] @ (if claimed then [] else [(''ready'', ''in_progress'')]) @
     [(''in_progress'', ''in_qa''), (''in_qa'', ''in_review''), (''in_review'', ''merged'')]"
  "List.map_filter sim_transition (scenario_ownership_lock cfg coder_id qa_id task_id) =
     [(''backlog'', ''ready''), (''ready'', ''in_progress''), (''in_progress'', ''in_qa''),
      (''in_qa'', ''in_progress'')]"
  "List.map_filter sim_transition (scenario_main_updated cfg t1 t2) =
     [(''backlog'', ''ready''), (''backlog'', ''ready''), (''ready'', ''in_progress''),
      (''ready'', ''in_progress''), (''in_progress'', ''in_qa''), (''in_qa'', ''in_review''),
      (''in_review'', ''merged'')]"
  by (simp_all add: scenario_happy_path_def scenario_ownership_lock_def scenario_main_updated_def
      make_agent_def create_task_def get_task_status_def tool_update_task_status_def
      tool_post_message_def List.map_filter_def split: option.split)

lemma scenario_post_types:
  "List.map_filter sim_post_type (scenario_happy_path cfg coder_id qa_id rev_id task_id claimed thread) =
     [''artifact'', ''artifact'', ''artifact'']"
  "List.map_filter sim_post_type (scenario_ownership_lock cfg coder_id qa_id task_id) =
     [''review_feedback'']"
  "List.map_filter sim_post_type (scenario_main_updated cfg t1 t2) = []"
  by (simp_all add: scenario_happy_path_def scenario_ownership_lock_def scenario_main_updated_def
      make_agent_def create_task_def get_task_status_def tool_update_task_status_def
      tool_post_message_def List.map_filter_def split: option.split)

lemma permitted_edge_names_eq:
  "permitted_edge_names =
     [(''backlog'', ''ready''), (''ready'', ''in_progress''), (''in_progress'', ''in_qa''),
      (''in_qa'', ''in_review''), (''in_qa'', ''in_progress''), (''in_review'', ''merged''),
      (''in_review'', ''in_progress'')]"
  by (simp add: permitted_edge_names_def permitted_edges_def)

text \<open>
  C4, as the code has it. Whatever the server, the shell and the files do, a call of
  \<^verbatim>\<open>_work_on_task\<close> adds to the requests sent either no status transition or exactly
  one, from in_progress to in_review; with a server that accepts every request and a
  working checkout it sends that one. The edge from in_progress to in_review is not among
  the permitted edges, which lead from in_progress to in_qa only. The three scenarios of
  \<^verbatim>\<open>simulate_pipeline.py\<close> ask for permitted edges only.
\<close>

theorem example_agent_requests_unpermitted_edge:
  "grows agent_requests_ok w (snd (work_on_task ev self task w))
   \<and> transition_requests
        (w_sent (snd (work_on_task willing_env example_agent assigned_task fresh_world)))
       = [(''in_progress'', ''in_review'')]
   \<and> (''in_progress'', ''in_review'') \<notin> set permitted_edge_names
   \<and> list_all (\<lambda>e. e \<in> set permitted_edge_names)
        (List.map_filter sim_transition
           (scenario_happy_path cfg coder_id qa_id rev_id task_id claimed thread))
   \<and> list_all (\<lambda>e. e \<in> set permitted_edge_names)
        (List.map_filter sim_transition (scenario_ownership_lock cfg coder_id qa_id task_id))
   \<and> list_all (\<lambda>e. e \<in> set permitted_edge_names)
        (List.map_filter sim_transition (scenario_main_updated cfg t1 t2))"
proof -
  have "(''in_progress'', ''in_review'') \<notin> set permitted_edge_names"
    by (simp add: permitted_edge_names_eq)
  moreover have "list_all (\<lambda>e. e \<in> set permitted_edge_names)
        (List.map_filter sim_transition
           (scenario_happy_path cfg coder_id qa_id rev_id task_id claimed thread))"
    by (simp add: scenario_transitions permitted_edge_names_eq)
  moreover have "list_all (\<lambda>e. e \<in> set permitted_edge_names)
        (List.map_filter sim_transition (scenario_ownership_lock cfg coder_id qa_id task_id))"
    by (simp add: scenario_transitions permitted_edge_names_eq)
  moreover have "list_all (\<lambda>e. e \<in> set permitted_edge_names)
        (List.map_filter sim_transition (scenario_main_updated cfg t1 t2))"
    by (simp add: scenario_transitions permitted_edge_names_eq)
  ultimately show ?thesis
    using work_on_task_grows willing_work_on_task by blast
qed

text \<open>
  C6, as the code has it. The claim names eight post types, review-feedback among them. The
  enumeration \<open>PostType\<close> of the SDK has seven members, with the values progress,
  blocker, help_wanted, decision, artifact, review_req and comment; they are all the
  values a \<open>PostType\<close> can be, and the lookup \<^verbatim>\<open>PostType("review_feedback")\<close> raises
  \<^verbatim>\<open>ValueError\<close>. The ownership scenario of \<^verbatim>\<open>simulate_pipeline.py\<close> posts a message
  of type review_feedback; the other posts of the scripts are of type artifact, and the
  example agent posts progress, blocker and artifact messages only, which the
  enumeration has.
\<close>

theorem PostType_lacks_review_feedback:
  "map PostType_value PostType_members =
     [''progress'', ''blocker'', ''help_wanted'', ''decision'', ''artifact'', ''review_req'',
      ''comment'']
   \<and> set PostType_members = UNIV
   \<and> PostType_of_value ''review_feedback'' = Inl (ValueError ''review_feedback'')
   \<and> List.map_filter sim_post_type (scenario_ownership_lock cfg coder_id qa_id task_id) =
       [''review_feedback'']
   \<and> List.map_filter sim_post_type
        (scenario_happy_path cfg coder_id qa_id rev_id task_id claimed thread) =
       [''artifact'', ''artifact'', ''artifact'']
   \<and> List.map_filter sim_post_type (scenario_main_updated cfg t1 t2) = []
   \<and> map PostType_of_value agent_post_types = [Inr PROGRESS, Inr BLOCKER, Inr ARTIFACT]
   \<and> grows agent_requests_ok w (snd (work_on_task ev self task w))"
proof -
  have "map PostType_value PostType_members =
     [''progress'', ''blocker'', ''help_wanted'', ''decision'', ''artifact'', ''review_req'',
      ''comment'']"
    by (simp add: PostType_members_def)
  moreover have "PostType_of_value ''review_feedback'' = Inl (ValueError ''review_feedback'')"
    by (simp add: PostType_of_value_def PostType_members_def)
  moreover have "map PostType_of_value agent_post_types = [Inr PROGRESS, Inr BLOCKER, Inr ARTIFACT]"
    by (simp add: PostType_of_value_def PostType_members_def agent_post_types_def)
  ultimately show ?thesis
    using PostType_members_complete scenario_post_types work_on_task_grows by blast
qed

end
